theory Spec2Isabelle
  imports Complex_Main
begin

section \<open>Python values used by the program\<close>

text \<open>
  Strings are lists of characters; a character is a code point below 256.
  Exceptions are values of \<open>exn\<close>; a computation that may raise returns \<open>exn + 'a\<close>
  with \<open>Inl\<close> for the raised exception.
\<close>

datatype exn =
    IOError string
  | ValueError string
  | OverflowError string
  | IndexError string
  | AttributeError string
  | FileNotFoundError string
  | LibraryError string
  | Cv2Error string

definition ebind :: "exn + 'a \<Rightarrow> ('a \<Rightarrow> exn + 'b) \<Rightarrow> exn + 'b" where
  "ebind r f = (case r of Inl e \<Rightarrow> Inl e | Inr v \<Rightarrow> f v)"

text \<open>\<open>xs[i]\<close> for a non-negative index: IndexError out of range.\<close>

definition py_index :: "'a list \<Rightarrow> nat \<Rightarrow> exn + 'a" where
  "py_index xs i =
     (if i < length xs then Inr (xs ! i) else Inl (IndexError ''list index out of range''))"

text \<open>\<open>str.lower()\<close> on code points below 256: A-Z and the accented capitals
  0xC0-0xDE (without the multiplication sign 0xD7) move up by 32.\<close>

definition lower_char :: "char \<Rightarrow> char" where
  "lower_char c =
     (let n = (of_char c :: nat)
      in if (65 \<le> n \<and> n \<le> 90) \<or> (192 \<le> n \<and> n \<le> 222 \<and> n \<noteq> 215)
         then char_of (n + 32) else c)"

definition lower :: "string \<Rightarrow> string" where
  "lower s = map lower_char s"

text \<open>\<open>s.rsplit(sep, 1)\<close> for a one-character separator: at most one split, made at
  the last occurrence of the separator; without an occurrence the list holds \<open>s\<close> alone.\<close>

definition rsplit1 :: "char \<Rightarrow> string \<Rightarrow> string list" where
  "rsplit1 sep s =
     (let r = rev s;
          tail = rev (takeWhile (\<lambda>c. c \<noteq> sep) r)
      in case dropWhile (\<lambda>c. c \<noteq> sep) r of
           [] \<Rightarrow> [s]
         | _ # p \<Rightarrow> [rev p, tail])"

section \<open>config.py\<close>

definition ALLOWED_EXTENSIONS :: "string set" where
  "ALLOWED_EXTENSIONS = {''mp4'', ''avi'', ''mov'', ''mkv''}"

text \<open>
  \<^verbatim>\<open>return '.' in filename and filename.rsplit('.', 1)[1].lower() in ALLOWED_EXTENSIONS\<close>
  The conjunction is evaluated left to right; the index is taken only when the left
  operand holds.
\<close>

definition allowed_file :: "string \<Rightarrow> exn + bool" where
  "allowed_file filename =
     (if CHR ''.'' \<in> set filename
      then ebind (py_index (rsplit1 (CHR ''.'') filename) 1)
             (\<lambda>ext. Inr (lower ext \<in> ALLOWED_EXTENSIONS))
      else Inr False)"

text \<open>The claim's wording: the name contains a dot, and the part after the last dot,
  lowercased, is an allowed extension.\<close>

definition allowed_file_spec :: "string \<Rightarrow> bool" where
  "allowed_file_spec filename \<longleftrightarrow>
     (\<exists>p ext. filename = p @ CHR ''.'' # ext \<and> CHR ''.'' \<notin> set ext
        \<and> lower ext \<in> ALLOWED_EXTENSIONS)"

section \<open>routes.py: the download route\<close>

text \<open>
  \<open>werkzeug.utils.secure_filename\<close>, the configured output folder, the file system
  (\<open>os.path.exists\<close>) and Flask's \<open>send_from_directory\<close> are outside the
  repository; the route is modelled over any behaviour of them. \<open>send_from_directory\<close>
  either raises or produces the attachment response.
\<close>

record web =
  secure_filename :: "string \<Rightarrow> string"
  OUTPUT_FOLDER :: string
  path_exists :: "string \<Rightarrow> bool"
  send_from_directory :: "string \<Rightarrow> string \<Rightarrow> exn option"

datatype response =
    Redirect string
  | Attachment string string

text \<open>\<open>os.path.join\<close> of two components (POSIX).\<close>

definition path_join :: "string \<Rightarrow> string \<Rightarrow> string" where
  "path_join a b =
     (if b \<noteq> [] \<and> hd b = CHR ''/'' then b
      else if a = [] \<or> last a = CHR ''/'' then a @ b
      else a @ ''/'' @ b)"

text \<open>The state of the route is the list of flashed messages (message, category).\<close>

definition download_file ::
  "web \<Rightarrow> string \<Rightarrow> (string \<times> string) list \<Rightarrow> (exn + response) \<times> (string \<times> string) list"
where
  "download_file W filename flashes =
     (let safe_filename = secure_filename W filename
      in if \<not> safe_filename = filename
         then (Inr (Redirect ''main.index''), flashes @ [(''Invalid filename.'', ''danger'')])
         else
           (let output_dir = OUTPUT_FOLDER W;
                file_path = path_join output_dir safe_filename
            in if \<not> path_exists W file_path
               then (Inr (Redirect ''main.index''),
                     flashes @ [(''File not found: '' @ safe_filename, ''danger'')])
               else
                 (case send_from_directory W output_dir safe_filename of
                    None \<Rightarrow> (Inr (Attachment output_dir safe_filename), flashes)
                  | Some (FileNotFoundError msg) \<Rightarrow>
                      (Inr (Redirect ''main.index''),
                       flashes @ [(''Error: Processed file not found ('' @ safe_filename @ '').'',
                                   ''danger'')])
                  | Some e \<Rightarrow> (Inl e, flashes))))"

section \<open>Floats, integers and their text\<close>

text \<open>
  A Python or numpy float is a finite value (given exactly, as a rational), negative
  zero, NaN or an infinity. The program only converts floats to integers and formats
  them; it does no float arithmetic.
\<close>

datatype pyfloat = Fin rat | NegZero | NaN | PInf | NInf

definition trunc :: "rat \<Rightarrow> int" where
  "trunc r = (if 0 \<le> r then \<lfloor>r\<rfloor> else \<lceil>r\<rceil>)"

text \<open>\<open>int(x)\<close>: truncation towards zero; NaN and the infinities raise.\<close>

definition py_int :: "pyfloat \<Rightarrow> exn + int" where
  "py_int x =
     (case x of
        Fin r \<Rightarrow> Inr (trunc r)
      | NegZero \<Rightarrow> Inr 0
      | NaN \<Rightarrow> Inl (ValueError ''cannot convert float NaN to integer'')
      | PInf \<Rightarrow> Inl (OverflowError ''cannot convert float infinity to integer'')
      | NInf \<Rightarrow> Inl (OverflowError ''cannot convert float infinity to integer''))"

definition digit_char :: "nat \<Rightarrow> char" where
  "digit_char d = char_of (48 + d)"

fun str_nat :: "nat \<Rightarrow> string" where
  "str_nat n = (if n < 10 then [digit_char n] else str_nat (n div 10) @ [digit_char (n mod 10)])"

declare str_nat.simps [simp del]

text \<open>\<open>str(i)\<close>, as the f-string \<open>{class_id}\<close> renders an integer.\<close>

definition str_int :: "int \<Rightarrow> string" where
  "str_int i = (if i < 0 then CHR ''-'' # str_nat (nat (- i)) else str_nat (nat i))"

definition round_half_even :: "rat \<Rightarrow> int" where
  "round_half_even q =
     (let n = \<lfloor>q\<rfloor>; d = q - of_int n
      in if d < 1 / 2 then n
         else if 1 / 2 < d then n + 1
         else if even n then n else n + 1)"

text \<open>The format \<open>:.2f\<close>: the exact value rounded to hundredths, ties to even.\<close>

definition format_2f :: "pyfloat \<Rightarrow> string" where
  "format_2f x =
     (case x of
        Fin r \<Rightarrow>
          (let h = nat (round_half_even (\<bar>r\<bar> * 100))
           in (if r < 0 then ''-'' else []) @ str_nat (h div 100) @ ''.''
              @ [digit_char (h mod 100 div 10), digit_char (h mod 10)])
      | NegZero \<Rightarrow> ''-0.00''
      | NaN \<Rightarrow> ''nan''
      | PInf \<Rightarrow> ''inf''
      | NInf \<Rightarrow> ''-inf'')"

text \<open>\<open>a, b, c, d, e, f = xs\<close>: ValueError unless there are exactly six values.\<close>

fun unpack6 :: "'a list \<Rightarrow> exn + ('a \<times> 'a \<times> 'a \<times> 'a \<times> 'a \<times> 'a)" where
  "unpack6 [a, b, c, d, e, f] = Inr (a, b, c, d, e, f)"
| "unpack6 xs =
     Inl (ValueError
            (if length xs < 6
             then ''not enough values to unpack (expected 6, got '' @ str_nat (length xs) @ '')''
             else ''too many values to unpack (expected 6)''))"

section \<open>video\_processor.py: frames, drawing, the detector and the video streams\<close>

text \<open>
  A frame is a numpy array; its content is the decoded pixel data together with the
  drawing calls applied to it so far, in order. Two frames are pixel-identical when
  they are equal.
\<close>

type_synonym point = "int \<times> int"
type_synonym colour = "nat \<times> nat \<times> nat"

datatype draw =
    Rectangle point point colour int
  | PutText string point rat colour int

record image =
  im_rows :: nat
  im_cols :: nat
  pixels :: "nat list"
  drawn :: "draw list"

datatype level = INFO | ERROR

datatype logmsg =
    Starting string
  | UsingModel string
  | OutputTo string
  | UsingDevice string
  | ModelLoaded
  | ModelLoadFailed exn
  | OpenFailed string
  | VideoProperties int int rat int
  | WriterFailed string
  | StartingLoop
  | EndOfVideo
  | Progress nat int
  | PredictionFailed nat exn
  | Finished
  | Complete string

text \<open>The effects of a run, in the order they happen.\<close>

datatype event =
    Log level logmsg
  | Capture_open string bool
  | Writer_open string string rat "int \<times> int" bool
  | Cap_read "image option"
  | Writer_write image
  | Cap_release
  | Writer_release

text \<open>
  Arrays are objects: the store maps references to frames, \<open>frame.copy()\<close> allocates
  a new reference, and the cv2 drawing calls change the frame behind a reference.
\<close>

record state =
  trace :: "event list"
  heap :: "nat \<Rightarrow> image option"
  next_ref :: nat

definition init_state :: state where
  "init_state = \<lparr>trace = [], heap = (\<lambda>_. None), next_ref = 0\<rparr>"

definition emit :: "event \<Rightarrow> state \<Rightarrow> state" where
  "emit e s = s\<lparr>trace := trace s @ [e]\<rparr>"

definition alloc :: "image \<Rightarrow> state \<Rightarrow> nat \<times> state" where
  "alloc img s =
     (next_ref s, s\<lparr>heap := (heap s)(next_ref s \<mapsto> img), next_ref := Suc (next_ref s)\<rparr>)"

definition np_copy :: "nat \<Rightarrow> state \<Rightarrow> nat \<times> state" where
  "np_copy a s = (case heap s a of Some img \<Rightarrow> alloc img s | None \<Rightarrow> (a, s))"

definition draw_on :: "nat \<Rightarrow> state \<Rightarrow> draw \<Rightarrow> state" where
  "draw_on a s d =
     (case heap s a of
        Some img \<Rightarrow> s\<lparr>heap := (heap s)(a \<mapsto> img\<lparr>drawn := drawn img @ [d]\<rparr>)\<rparr>
      | None \<Rightarrow> s)"

definition writer_write :: "nat \<Rightarrow> state \<Rightarrow> state" where
  "writer_write a s = (case heap s a of Some img \<Rightarrow> emit (Writer_write img) s | None \<Rightarrow> s)"

text \<open>
  The loaded detector: its name table (a dict), \<open>model.to(device)\<close> (None when it
  does not raise) and \<open>model.predict(frame, device=device, verbose=False)\<close>, which
  raises or returns a list of results; \<open>boxes\<close> of a result is None or the table
  \<open>boxes.data\<close>, one row of floats per detection.
\<close>

record model =
  names :: "int \<Rightarrow> string option"
  to_device :: "string \<Rightarrow> exn option"
  predict :: "image \<Rightarrow> string \<Rightarrow> exn + (pyfloat list list) option list"

text \<open>An opened capture: the properties \<open>cap.get\<close> reports and the frames that
  successive \<open>cap.read()\<close> calls decode before the first failing read.\<close>

record video =
  FRAME_WIDTH :: rat
  FRAME_HEIGHT :: rat
  FPS :: rat
  FRAME_COUNT :: rat
  frames :: "image list"

text \<open>
  What lies outside the repository, as parameters: torch, the ultralytics loader,
  cv2's capture (None: \<open>isOpened()\<close> is false) and writer (path, fourcc, fps, size;
  the result is \<open>isOpened()\<close>), cv2's text metrics for FONT\_HERSHEY\_SIMPLEX
  (text, scale, thickness; the result is ((width, height), baseline)), and the
  exception, if any, that \<open>cv2.rectangle\<close> and \<open>cv2.putText\<close> raise on their
  arguments instead of drawing (cv2 refuses, for one, a coordinate that is not a C
  int).
\<close>

record env =
  cuda_is_available :: bool
  YOLO :: "string \<Rightarrow> exn + model"
  VideoCapture :: "string \<Rightarrow> video option"
  VideoWriter :: "string \<Rightarrow> string \<Rightarrow> rat \<Rightarrow> int \<times> int \<Rightarrow> bool"
  getTextSize :: "string \<Rightarrow> rat \<Rightarrow> int \<Rightarrow> (int \<times> int) \<times> int"
  rectangle_error :: "point \<Rightarrow> point \<Rightarrow> colour \<Rightarrow> int \<Rightarrow> exn option"
  putText_error :: "string \<Rightarrow> point \<Rightarrow> rat \<Rightarrow> colour \<Rightarrow> int \<Rightarrow> exn option"

section \<open>video\_processor.py: \<open>process_video\<close>\<close>

text \<open>Line 24: the device.\<close>

definition device_of :: "env \<Rightarrow> string" where
  "device_of E = (if cuda_is_available E then ''cuda'' else ''cpu'')"

text \<open>Lines 27-36: the try block; any exception is logged and raised again.\<close>

definition load_model :: "env \<Rightarrow> string \<Rightarrow> string \<Rightarrow> exn + model" where
  "load_model E model_path device =
     ebind (YOLO E model_path)
       (\<lambda>m. case to_device m device of Some e \<Rightarrow> Inl e | None \<Rightarrow> Inr m)"

text \<open>Lines 93-94.\<close>

definition label_text :: "(int \<Rightarrow> string option) \<Rightarrow> int \<Rightarrow> pyfloat \<Rightarrow> string" where
  "label_text class_names class_id score =
     (let label = (case class_names class_id of
                     Some n \<Rightarrow> n
                   | None \<Rightarrow> ''Class_'' @ str_int class_id)
      in label @ '': '' @ format_2f score)"

text \<open>
  Lines 88-90: the row is unpacked into six values, the coordinates and then the class
  index are converted by \<open>int\<close>; the unpacking and each conversion may raise.
\<close>

definition unpack_det :: "pyfloat list \<Rightarrow> exn + (int \<times> int \<times> int \<times> int \<times> pyfloat \<times> int)" where
  "unpack_det det =
     ebind (unpack6 det) (\<lambda>(fx1, fy1, fx2, fy2, score, fclass).
     ebind (py_int fx1) (\<lambda>x1.
     ebind (py_int fy1) (\<lambda>y1.
     ebind (py_int fx2) (\<lambda>x2.
     ebind (py_int fy2) (\<lambda>y2.
     ebind (py_int fclass) (\<lambda>class_id.
       Inr (x1, y1, x2, y2, score, class_id)))))))"

text \<open>
  \<open>cv2.rectangle(img, pt1, pt2, color, thickness)\<close> and
  \<open>cv2.putText(img, text, org, FONT_HERSHEY_SIMPLEX, fontScale, color, thickness)\<close>
  on the frame behind a reference: the call raises and draws nothing, or it draws.
\<close>

definition cv2_rectangle ::
  "env \<Rightarrow> nat \<Rightarrow> point \<Rightarrow> point \<Rightarrow> colour \<Rightarrow> int \<Rightarrow> state \<Rightarrow> (exn + unit) \<times> state"
where
  "cv2_rectangle E img pt1 pt2 color thickness s =
     (case rectangle_error E pt1 pt2 color thickness of
        Some e \<Rightarrow> (Inl e, s)
      | None \<Rightarrow> (Inr (), draw_on img s (Rectangle pt1 pt2 color thickness)))"

definition cv2_putText ::
  "env \<Rightarrow> nat \<Rightarrow> string \<Rightarrow> point \<Rightarrow> rat \<Rightarrow> colour \<Rightarrow> int \<Rightarrow> state \<Rightarrow> (exn + unit) \<times> state"
where
  "cv2_putText E img text org fontScale color thickness s =
     (case putText_error E text org fontScale color thickness of
        Some e \<Rightarrow> (Inl e, s)
      | None \<Rightarrow> (Inr (), draw_on img s (PutText text org fontScale color thickness)))"

text \<open>Line 103.\<close>

definition text_y_of :: "int \<Rightarrow> int \<Rightarrow> int \<Rightarrow> int" where
  "text_y_of y1 text_height baseline =
     (if y1 - 10 > text_height then y1 - 10 else y1 + text_height + baseline)"

text \<open>
  Lines 88-105, the body of the loop over detections, for one row. An exception of
  the unpacking, of \<open>int\<close> or of a cv2 call ends it; what was drawn before stays
  drawn.
\<close>

definition annotate_det ::
  "env \<Rightarrow> model \<Rightarrow> nat \<Rightarrow> pyfloat list \<Rightarrow> state \<Rightarrow> (exn + unit) \<times> state"
where
  "annotate_det E m annotated_frame det s =
     (case unpack_det det of
        Inl e \<Rightarrow> (Inl e, s)
      | Inr (x1, y1, x2, y2, score, class_id) \<Rightarrow>
          (let label_with_score = label_text (names m) class_id score
           in case cv2_rectangle E annotated_frame (x1, y1) (x2, y2) (0, 255, 0) 2 s of
                (Inl e, s1) \<Rightarrow> (Inl e, s1)
              | (Inr u, s1) \<Rightarrow>
                  (let ((text_width, text_height), baseline) =
                         getTextSize E label_with_score (6 / 10) 2;
                       text_y = text_y_of y1 text_height baseline
                   in case cv2_rectangle E annotated_frame
                             (x1, text_y - text_height - baseline) (x1 + text_width, text_y)
                             (0, 255, 0) (- 1) s1 of
                        (Inl e, s2) \<Rightarrow> (Inl e, s2)
                      | (Inr u, s2) \<Rightarrow>
                          cv2_putText E annotated_frame label_with_score
                            (x1, text_y - baseline div 2) (6 / 10) (0, 0, 0) 2 s2)))"

text \<open>Lines 86-105: the loop over the detections, drawing on \<open>annotated_frame\<close>.\<close>

fun annotate :: "env \<Rightarrow> model \<Rightarrow> nat \<Rightarrow> pyfloat list list \<Rightarrow> state \<Rightarrow> (exn + unit) \<times> state" where
  "annotate E m a [] s = (Inr (), s)"
| "annotate E m a (det # dets) s =
     (case annotate_det E m a det s of
        (Inl e, s1) \<Rightarrow> (Inl e, s1)
      | (Inr u, s1) \<Rightarrow> annotate E m a dets s1)"

text \<open>Line 84: \<open>results[0].boxes.data.cpu().numpy()\<close>; the index raises on an empty
  list and the attribute access on a result without boxes.\<close>

definition boxes_data :: "(pyfloat list list) option list \<Rightarrow> exn + pyfloat list list" where
  "boxes_data results =
     ebind (py_index results 0)
       (\<lambda>r. case r of
               None \<Rightarrow>
                 Inl (AttributeError
                        (CHR 0x27 # ''NoneType' object has no attribute 'data'' @ [CHR 0x27]))
             | Some d \<Rightarrow> Inr d)"

text \<open>
  Lines 69-109: the loop body after a successful read of the frame behind
  \<open>frame\<close>, with \<open>frame_count\<close> already incremented. \<open>Inr ()\<close> is the end of the
  iteration (also by \<open>continue\<close>), \<open>Inl e\<close> an exception that leaves the loop.
\<close>

definition process_frame ::
  "env \<Rightarrow> model \<Rightarrow> string \<Rightarrow> int \<Rightarrow> nat \<Rightarrow> image \<Rightarrow> nat \<Rightarrow> state \<Rightarrow> (exn + unit) \<times> state"
where
  "process_frame E m device total_frames frame f frame_count s0 =
     (let s1 = (if frame_count mod 100 = 0
                then emit (Log INFO (Progress frame_count total_frames)) s0 else s0)
      in case predict m f device of
           Inl e \<Rightarrow> (Inr (), emit (Log ERROR (PredictionFailed frame_count e)) s1)
         | Inr results \<Rightarrow>
             (let (annotated_frame, s2) = np_copy frame s1
              in case boxes_data results of
                   Inl e \<Rightarrow> (Inl e, s2)
                 | Inr detections \<Rightarrow>
                     (case annotate E m annotated_frame detections s2 of
                        (Inl e, s3) \<Rightarrow> (Inl e, s3)
                      | (Inr u, s3) \<Rightarrow> (Inr (), writer_write annotated_frame s3))))"

text \<open>Lines 63-109: \<open>while True\<close>, over the frames the capture still holds.\<close>

fun frame_loop ::
  "env \<Rightarrow> model \<Rightarrow> string \<Rightarrow> int \<Rightarrow> image list \<Rightarrow> nat \<Rightarrow> state \<Rightarrow> (exn + unit) \<times> state"
where
  "frame_loop E m device total_frames [] frame_count s =
     (Inr (), emit (Log INFO EndOfVideo) (emit (Cap_read None) s))"
| "frame_loop E m device total_frames (f # fs) frame_count s =
     (let (frame, s1) = alloc f (emit (Cap_read (Some f)) s)
      in case process_frame E m device total_frames frame f (frame_count + 1) s1 of
           (Inl e, s2) \<Rightarrow> (Inl e, s2)
         | (Inr u, s2) \<Rightarrow> frame_loop E m device total_frames fs (frame_count + 1) s2)"

definition process_video :: "env \<Rightarrow> string \<Rightarrow> string \<Rightarrow> string \<Rightarrow> (exn + unit) \<times> state" where
  "process_video E input_video_path output_video_path model_path =
     (let device = device_of E;
          s1 = emit (Log INFO (UsingDevice device))
                 (emit (Log INFO (OutputTo output_video_path))
                   (emit (Log INFO (UsingModel model_path))
                     (emit (Log INFO (Starting input_video_path)) init_state)))
      in case load_model E model_path device of
           Inl e \<Rightarrow> (Inl e, emit (Log ERROR (ModelLoadFailed e)) s1)
         | Inr m \<Rightarrow>
             (let s2 = emit (Log INFO ModelLoaded) s1
              in case VideoCapture E input_video_path of
                   None \<Rightarrow>
                     (Inl (IOError (''Cannot open video file: '' @ input_video_path)),
                      emit (Log ERROR (OpenFailed input_video_path))
                        (emit (Capture_open input_video_path False) s2))
                 | Some v \<Rightarrow>
                     (let frame_width = trunc (FRAME_WIDTH v);
                          frame_height = trunc (FRAME_HEIGHT v);
                          fps = FPS v;
                          total_frames = trunc (FRAME_COUNT v);
                          s3 = emit (Log INFO (VideoProperties frame_width frame_height fps
                                                 total_frames))
                                 (emit (Capture_open input_video_path True) s2);
                          opened = VideoWriter E output_video_path ''mp4v'' fps
                                     (frame_width, frame_height);
                          s4 = emit (Writer_open output_video_path ''mp4v'' fps
                                       (frame_width, frame_height) opened) s3
                      in if \<not> opened
                         then (Inl (IOError (''Cannot initialize video writer for: ''
                                             @ output_video_path)),
                               emit Cap_release
                                 (emit (Log ERROR (WriterFailed output_video_path)) s4))
                         else
                           (case frame_loop E m device total_frames (frames v) 0
                                   (emit (Log INFO StartingLoop) s4) of
                              (Inl e, s5) \<Rightarrow> (Inl e, s5)
                            | (Inr u, s5) \<Rightarrow>
                                (Inr (),
                                 emit (Log INFO (Complete output_video_path))
                                   (emit Writer_release
                                     (emit Cap_release
                                       (emit (Log INFO Finished) s5))))))))"

section \<open>Observations on a run\<close>

fun is_log :: "event \<Rightarrow> bool" where
  "is_log (Log l m) = True"
| "is_log e = False"

text \<open>The effects other than log lines; the frames written, the frames read and the
  logged prediction failures, each in order.\<close>

definition io_events :: "event list \<Rightarrow> event list" where
  "io_events tr = filter (\<lambda>e. \<not> is_log e) tr"

definition written :: "event list \<Rightarrow> image list" where
  "written tr = [img. Writer_write img \<leftarrow> tr]"

definition frames_read :: "event list \<Rightarrow> image list" where
  "frames_read tr = [f. Cap_read (Some f) \<leftarrow> tr]"

definition failures :: "event list \<Rightarrow> (nat \<times> exn) list" where
  "failures tr = [(n, e). Log ERROR (PredictionFailed n e) \<leftarrow> tr]"

fun is_sink_event :: "event \<Rightarrow> bool" where
  "is_sink_event (Writer_open p c r sz b) = True"
| "is_sink_event (Writer_write i) = True"
| "is_sink_event Writer_release = True"
| "is_sink_event e = False"

definition sink_events :: "event list \<Rightarrow> event list" where
  "sink_events tr = filter is_sink_event tr"

section \<open>The wording of the claims\<close>

text \<open>A box is valid when \<open>x1 < x2\<close> and \<open>y1 < y2\<close> hold within the frame.\<close>

definition valid_box :: "image \<Rightarrow> int \<times> int \<times> int \<times> int \<Rightarrow> bool" where
  "valid_box img b =
     (case b of (x1, y1, x2, y2) \<Rightarrow>
        0 \<le> x1 \<and> x1 < x2 \<and> x2 \<le> int (im_cols img)
        \<and> 0 \<le> y1 \<and> y1 < y2 \<and> y2 \<le> int (im_rows img))"

text \<open>
  \<open>cv2.putText\<close> takes the bottom-left corner of the text; the text of the given
  width and height lies inside the frame when its box does.
\<close>

definition text_in_frame :: "image \<Rightarrow> point \<Rightarrow> int \<Rightarrow> int \<Rightarrow> bool" where
  "text_in_frame img org text_width text_height =
     (case org of (x, y) \<Rightarrow>
        0 \<le> x \<and> x + text_width \<le> int (im_cols img)
        \<and> 0 \<le> y - text_height \<and> y \<le> int (im_rows img))"

text \<open>Reading a decimal numeral back.\<close>

definition is_digit :: "char \<Rightarrow> bool" where
  "is_digit c \<longleftrightarrow> c \<in> set ''0123456789''"

definition digit_val :: "char \<Rightarrow> nat" where
  "digit_val c = of_char c - 48"

definition decimal_val :: "string \<Rightarrow> nat" where
  "decimal_val s = foldl (\<lambda>a c. 10 * a + digit_val c) 0 s"

section \<open>Concrete inputs\<close>

text \<open>
  Five frames of 100 by 100 told apart by their pixel data, and a detector that
  reports nothing on the first, fails on the second, reports one detection with the
  degenerate box (5, 5, 5, 5) on the third, a row with a NaN coordinate on the fourth
  and one detection with the valid box (10, 27, 60, 70) on the fifth. Every detection
  is of class 0, named stop, with score 0.5, so that the only label text drawn is
  \<open>stop: 0.50\<close>.
\<close>

definition frame_a :: image where
  "frame_a = \<lparr>im_rows = 100, im_cols = 100, pixels = [1], drawn = []\<rparr>"
definition frame_b :: image where
  "frame_b = \<lparr>im_rows = 100, im_cols = 100, pixels = [2], drawn = []\<rparr>"
definition frame_c :: image where
  "frame_c = \<lparr>im_rows = 100, im_cols = 100, pixels = [3], drawn = []\<rparr>"
definition frame_d :: image where
  "frame_d = \<lparr>im_rows = 100, im_cols = 100, pixels = [4], drawn = []\<rparr>"
definition frame_e :: image where
  "frame_e = \<lparr>im_rows = 100, im_cols = 100, pixels = [5], drawn = []\<rparr>"

definition demo_model :: model where
  "demo_model =
     \<lparr>names = [0 \<mapsto> ''stop'', 1 \<mapsto> ''yield''],
      to_device = (\<lambda>d. None),
      predict = (\<lambda>f d.
        if pixels f = [2] then Inl (LibraryError ''inference failed'')
        else if pixels f = [3] then Inr [Some [[Fin 5, Fin 5, Fin 5, Fin 5, Fin (1 / 2), Fin 0]]]
        else if pixels f = [4] then Inr [Some [[NaN, Fin 5, Fin 9, Fin 9, Fin (1 / 2), Fin 0]]]
        else if pixels f = [5]
          then Inr [Some [[Fin 10, Fin 27, Fin 60, Fin 70, Fin (1 / 2), Fin 0]]]
        else Inr [Some []])\<rparr>"

definition demo_video :: "image list \<Rightarrow> video" where
  "demo_video fs = \<lparr>FRAME_WIDTH = 100, FRAME_HEIGHT = 100, FPS = 25,
     FRAME_COUNT = of_nat (length fs), frames = fs\<rparr>"

text \<open>A coordinate that cv2 can take as a C int.\<close>

definition fits_c_int :: "int \<Rightarrow> bool" where
  "fits_c_int v \<longleftrightarrow> - (2 ^ 31) \<le> v \<and> v < 2 ^ 31"

text \<open>
  The capture opens \<open>clip.mp4\<close>, \<open>nan.mp4\<close> and \<open>edge.mp4\<close>; it opens
  \<open>undecodable.mp4\<close> too, but no frame of it can be read; it opens nothing else.
  The text metrics are those cv2 reports for \<open>stop: 0.50\<close> at scale 0.6 and
  thickness 2, width 82, height 16 and baseline 4. The drawing calls raise
  \<open>cv2.error\<close> for a coordinate that is not a C int.
\<close>

definition demo_env :: env where
  "demo_env =
     \<lparr>cuda_is_available = False,
      YOLO = (\<lambda>p. if p = ''best.pt'' then Inr demo_model
                   else Inl (LibraryError ''No such file'')),
      VideoCapture = (\<lambda>p. if p = ''clip.mp4'' then Some (demo_video [frame_a, frame_b, frame_c])
                           else if p = ''nan.mp4'' then Some (demo_video [frame_a, frame_d])
                           else if p = ''edge.mp4'' then Some (demo_video [frame_e])
                           else if p = ''undecodable.mp4'' then Some (demo_video [])
                           else None),
      VideoWriter = (\<lambda>p c r sz. p \<noteq> ''/missing/out.mp4''),
      getTextSize = (\<lambda>t sc th. ((82, 16), 4)),
      rectangle_error = (\<lambda>pt1 pt2 c th.
        if fits_c_int (fst pt1) \<and> fits_c_int (snd pt1)
           \<and> fits_c_int (fst pt2) \<and> fits_c_int (snd pt2)
        then None else Some (Cv2Error ''Bad argument'')),
      putText_error = (\<lambda>t org sc c th.
        if fits_c_int (fst org) \<and> fits_c_int (snd org)
        then None else Some (Cv2Error ''Bad argument''))\<rparr>"

text \<open>A download route whose output folder holds one processed file; the sanitiser
  here drops slashes and spaces.\<close>

definition demo_web :: web where
  "demo_web =
     \<lparr>secure_filename = (\<lambda>n. [c \<leftarrow> n. c \<noteq> CHR ''/'' \<and> c \<noteq> CHR '' '']),
      OUTPUT_FOLDER = ''/srv/outputs'',
      path_exists = (\<lambda>p. p = ''/srv/outputs/processed_ab12cd34_clip.mp4''),
      send_from_directory = (\<lambda>d n. None)\<rparr>"

section \<open>Properties of \<open>allowed_file\<close>\<close>

lemma rsplit1_last:
  assumes "sep \<notin> set ext"
  shows "rsplit1 sep (p @ sep # ext) = [p, ext]"
proof -
  let ?P = "\<lambda>c. c \<noteq> sep"
  have "takeWhile ?P (rev ext @ sep # rev p) = rev ext @ takeWhile ?P (sep # rev p)"
    by (rule takeWhile_append2) (use assms in auto)
  moreover have "dropWhile ?P (rev ext @ sep # rev p) = dropWhile ?P (sep # rev p)"
    by (rule dropWhile_append2) (use assms in auto)
  ultimately show ?thesis by (simp add: rsplit1_def)
qed

lemma last_split_unique:
  fixes sep :: char
  assumes "p @ sep # ext = p' @ sep # ext'" "sep \<notin> set ext" "sep \<notin> set ext'"
  shows "ext = ext'"
proof -
  have "[p, ext] = rsplit1 sep (p @ sep # ext)" using assms(2) by (simp add: rsplit1_last)
  also have "\<dots> = rsplit1 sep (p' @ sep # ext')" using assms(1) by simp
  also have "\<dots> = [p', ext']" using assms(3) by (simp add: rsplit1_last)
  finally show ?thesis by simp
qed

lemma allowed_file_refines: "allowed_file filename = Inr (allowed_file_spec filename)"
proof (cases "CHR ''.'' \<in> set filename")
  case False
  then have "\<not> allowed_file_spec filename"
    by (auto simp: allowed_file_spec_def)
  with False show ?thesis by (simp add: allowed_file_def)
next
  case True
  then obtain p ext where f: "filename = p @ CHR ''.'' # ext" and e: "CHR ''.'' \<notin> set ext"
    using split_list_last by fastforce
  have "lower ext \<in> ALLOWED_EXTENSIONS" if "allowed_file_spec filename"
  proof -
    from that obtain p' ext' where g: "filename = p' @ CHR ''.'' # ext'"
      and e': "CHR ''.'' \<notin> set ext'" and a: "lower ext' \<in> ALLOWED_EXTENSIONS"
      unfolding allowed_file_spec_def by blast
    have "ext = ext'" using f g e e' last_split_unique [of p "CHR ''.''" ext p' ext'] by simp
    with a show ?thesis by simp
  qed
  moreover have "allowed_file_spec filename" if "lower ext \<in> ALLOWED_EXTENSIONS"
    unfolding allowed_file_spec_def using f e that by blast
  ultimately have "allowed_file_spec filename \<longleftrightarrow> lower ext \<in> ALLOWED_EXTENSIONS"
    by blast
  moreover have "allowed_file filename = Inr (lower ext \<in> ALLOWED_EXTENSIONS)"
    using True e unfolding f
    by (simp add: allowed_file_def rsplit1_last py_index_def ebind_def)
  ultimately show ?thesis by simp
qed

lemma lower_MP4: "lower ''MP4'' = ''mp4''"
  by code_simp

text \<open>
  Claim C10. \<open>allowed_file\<close> never raises and returns True exactly when the name
  contains a dot and the part after its last dot, lowercased, is one of mp4, avi, mov,
  mkv. So the check ignores case (an upper-case \<open>.MP4\<close> is accepted) and a name
  without a dot is rejected.
\<close>

theorem allowed_file_iff:
  "allowed_file filename = Inr (allowed_file_spec filename)
   \<and> allowed_file (stem @ ''.MP4'') = Inr True
   \<and> (CHR ''.'' \<notin> set filename \<longrightarrow> allowed_file filename = Inr False)"
proof (intro conjI impI)
  show "allowed_file filename = Inr (allowed_file_spec filename)"
    by (rule allowed_file_refines)
  have "rsplit1 (CHR ''.'') (stem @ CHR ''.'' # ''MP4'') = [stem, ''MP4'']"
    by (rule rsplit1_last) simp
  then show "allowed_file (stem @ ''.MP4'') = Inr True"
    by (simp add: allowed_file_def py_index_def ebind_def lower_MP4 ALLOWED_EXTENSIONS_def)
  show "allowed_file filename = Inr False" if "CHR ''.'' \<notin> set filename"
    using that by (simp add: allowed_file_def)
qed

theorem allowed_file_iff_witness:
  "CHR ''.'' \<notin> set ''holiday_video'' \<and> allowed_file ''holiday_video'' = Inr False
   \<and> allowed_file ''clip.MP4'' = Inr True
   \<and> allowed_file ''archive.tar.gz'' = Inr (allowed_file_spec ''archive.tar.gz'')"
proof -
  have nodot: "CHR ''.'' \<notin> set ''holiday_video''" by simp
  from allowed_file_iff [of "''holiday_video''" "''clip''"] nodot
  have "allowed_file ''holiday_video'' = Inr False"
    and "allowed_file (''clip'' @ ''.MP4'') = Inr True"
    by blast+
  moreover from allowed_file_iff [of "''archive.tar.gz''" "''clip''"]
  have "allowed_file ''archive.tar.gz'' = Inr (allowed_file_spec ''archive.tar.gz'')"
    by blast
  ultimately show ?thesis using nodot by simp
qed

section \<open>Traces and the frame store\<close>


lemma trace_emit [simp]: "trace (emit e s) = trace s @ [e]"
  and heap_emit [simp]: "heap (emit e s) = heap s"
  and next_ref_emit [simp]: "next_ref (emit e s) = next_ref s"
  by (simp_all add: emit_def)

lemma io_events_append [simp]: "io_events (xs @ ys) = io_events xs @ io_events ys"
  by (simp add: io_events_def)

lemma written_append [simp]: "written (xs @ ys) = written xs @ written ys"
  by (simp add: written_def)

lemma frames_read_append [simp]: "frames_read (xs @ ys) = frames_read xs @ frames_read ys"
  by (simp add: frames_read_def)

lemma failures_append [simp]: "failures (xs @ ys) = failures xs @ failures ys"
  by (simp add: failures_def)

lemma io_events_Cons [simp]:
  "io_events (e # es) = (if is_log e then io_events es else e # io_events es)"
  "io_events [] = []"
  by (simp_all add: io_events_def)

lemma written_Cons [simp]:
  "written (Log l m # es) = written es"
  "written (Capture_open p b # es) = written es"
  "written (Writer_open p c r sz b # es) = written es"
  "written (Cap_read x # es) = written es"
  "written (Writer_write i # es) = i # written es"
  "written (Cap_release # es) = written es"
  "written (Writer_release # es) = written es"
  "written [] = []"
  by (simp_all add: written_def)

lemma frames_read_Cons [simp]:
  "frames_read (Log l m # es) = frames_read es"
  "frames_read (Capture_open p b # es) = frames_read es"
  "frames_read (Writer_open p c r sz b # es) = frames_read es"
  "frames_read (Cap_read (Some f) # es) = f # frames_read es"
  "frames_read (Cap_read None # es) = frames_read es"
  "frames_read (Writer_write i # es) = frames_read es"
  "frames_read (Cap_release # es) = frames_read es"
  "frames_read (Writer_release # es) = frames_read es"
  "frames_read [] = []"
  by (simp_all add: frames_read_def)

lemma failures_Cons [simp]:
  "failures (Log ERROR (PredictionFailed n e) # es) = (n, e) # failures es"
  "failures (Log INFO m # es) = failures es"
  "failures (Capture_open p b # es) = failures es"
  "failures (Writer_open p c r sz b # es) = failures es"
  "failures (Cap_read x # es) = failures es"
  "failures (Writer_write i # es) = failures es"
  "failures (Cap_release # es) = failures es"
  "failures (Writer_release # es) = failures es"
  "failures [] = []"
  by (simp_all add: failures_def)

lemma sink_events_Cons [simp]:
  "sink_events (e # es) = (if is_sink_event e then e # sink_events es else sink_events es)"
  "sink_events [] = []"
  by (simp_all add: sink_events_def)

lemma init_state_simps [simp]:
  "trace init_state = []" "heap init_state a = None" "next_ref init_state = 0"
  by (simp_all add: init_state_def)


lemma alloc_simps [simp]:
  "fst (alloc img s) = next_ref s"
  "trace (snd (alloc img s)) = trace s"
  "next_ref (snd (alloc img s)) = Suc (next_ref s)"
  "heap (snd (alloc img s)) = (heap s)(next_ref s \<mapsto> img)"
  by (simp_all add: alloc_def)

lemma draw_on_simps [simp]:
  "trace (draw_on a s d) = trace s"
  "next_ref (draw_on a s d) = next_ref s"
  "b \<noteq> a \<Longrightarrow> heap (draw_on a s d) b = heap s b"
  "heap s a = Some img \<Longrightarrow> heap (draw_on a s d) a = Some (img\<lparr>drawn := drawn img @ [d]\<rparr>)"
  by (simp_all add: draw_on_def split: option.splits)

text \<open>A drawing call changes nothing but the frame it draws on, and that frame only
  by one more drawing call.\<close>

lemma cv2_rectangle_frame:
  "trace (snd (cv2_rectangle E a p q c t s)) = trace s"
  "next_ref (snd (cv2_rectangle E a p q c t s)) = next_ref s"
  "b \<noteq> a \<Longrightarrow> heap (snd (cv2_rectangle E a p q c t s)) b = heap s b"
  by (simp_all add: cv2_rectangle_def split: option.splits)

lemma cv2_putText_frame:
  "trace (snd (cv2_putText E a txt org sc c t s)) = trace s"
  "next_ref (snd (cv2_putText E a txt org sc c t s)) = next_ref s"
  "b \<noteq> a \<Longrightarrow> heap (snd (cv2_putText E a txt org sc c t s)) b = heap s b"
  by (simp_all add: cv2_putText_def split: option.splits)

lemma cv2_rectangle_defined:
  assumes "heap s a = Some (img\<lparr>drawn := drawn img @ ds\<rparr>)"
  shows "\<exists>ds'. heap (snd (cv2_rectangle E a p q c t s)) a
                 = Some (img\<lparr>drawn := drawn img @ ds'\<rparr>)"
proof (cases "rectangle_error E p q c t")
  case None
  then have "heap (snd (cv2_rectangle E a p q c t s)) a
               = Some (img\<lparr>drawn := drawn img @ (ds @ [Rectangle p q c t])\<rparr>)"
    using assms by (simp add: cv2_rectangle_def)
  then show ?thesis by blast
next
  case (Some e)
  then show ?thesis using assms by (auto simp: cv2_rectangle_def)
qed

lemma cv2_putText_defined:
  assumes "heap s a = Some (img\<lparr>drawn := drawn img @ ds\<rparr>)"
  shows "\<exists>ds'. heap (snd (cv2_putText E a txt org sc c t s)) a
                 = Some (img\<lparr>drawn := drawn img @ ds'\<rparr>)"
proof (cases "putText_error E txt org sc c t")
  case None
  then have "heap (snd (cv2_putText E a txt org sc c t s)) a
               = Some (img\<lparr>drawn := drawn img @ (ds @ [PutText txt org sc c t])\<rparr>)"
    using assms by (simp add: cv2_putText_def)
  then show ?thesis by blast
next
  case (Some e)
  then show ?thesis using assms by (auto simp: cv2_putText_def)
qed

text \<open>The body of the loop over the detections as a chain of its three calls.\<close>

lemma annotate_det_unfold:
  assumes "unpack_det det = Inr (x1, y1, x2, y2, score, class_id)"
      and "getTextSize E (label_text (names m) class_id score) (6 / 10) 2 = ((tw, th), bl)"
  shows "annotate_det E m a det s =
     (case cv2_rectangle E a (x1, y1) (x2, y2) (0, 255, 0) 2 s of
        (Inl e, s1) \<Rightarrow> (Inl e, s1)
      | (Inr u, s1) \<Rightarrow>
          (case cv2_rectangle E a (x1, text_y_of y1 th bl - th - bl)
                  (x1 + tw, text_y_of y1 th bl) (0, 255, 0) (- 1) s1 of
             (Inl e, s2) \<Rightarrow> (Inl e, s2)
           | (Inr u, s2) \<Rightarrow>
               cv2_putText E a (label_text (names m) class_id score)
                 (x1, text_y_of y1 th bl - bl div 2) (6 / 10) (0, 0, 0) 2 s2))"
  using assms by (simp add: annotate_det_def Let_def split: prod.splits sum.splits)

lemma annotate_det_frame:
  "trace (snd (annotate_det E m a det s)) = trace s"
  "next_ref (snd (annotate_det E m a det s)) = next_ref s"
  "b \<noteq> a \<Longrightarrow> heap (snd (annotate_det E m a det s)) b = heap s b"
proof -
  have "trace (snd (annotate_det E m a det s)) = trace s
      \<and> next_ref (snd (annotate_det E m a det s)) = next_ref s
      \<and> (b \<noteq> a \<longrightarrow> heap (snd (annotate_det E m a det s)) b = heap s b)"
  proof (cases "unpack_det det")
    case (Inl e)
    then show ?thesis by (simp add: annotate_det_def)
  next
    case (Inr v)
    obtain x1 y1 x2 y2 score class_id where v: "v = (x1, y1, x2, y2, score, class_id)"
      by (metis surj_pair)
    obtain tw th bl where
      g: "getTextSize E (label_text (names m) class_id score) (6 / 10) 2 = ((tw, th), bl)"
      by (metis surj_pair)
    let ?r1 = "cv2_rectangle E a (x1, y1) (x2, y2) (0, 255, 0) 2 s"
    let ?r2 = "cv2_rectangle E a (x1, text_y_of y1 th bl - th - bl)
                 (x1 + tw, text_y_of y1 th bl) (0, 255, 0) (- 1) (snd ?r1)"
    let ?r3 = "cv2_putText E a (label_text (names m) class_id score)
                 (x1, text_y_of y1 th bl - bl div 2) (6 / 10) (0, 0, 0) 2 (snd ?r2)"
    have "snd (annotate_det E m a det s) = snd ?r1
        \<or> snd (annotate_det E m a det s) = snd ?r2
        \<or> snd (annotate_det E m a det s) = snd ?r3"
      unfolding annotate_det_unfold [OF Inr [unfolded v] g]
      by (auto split: prod.splits sum.splits)
    then show ?thesis
      by (auto simp: cv2_rectangle_frame cv2_putText_frame)
  qed
  then show "trace (snd (annotate_det E m a det s)) = trace s"
    "next_ref (snd (annotate_det E m a det s)) = next_ref s"
    "b \<noteq> a \<Longrightarrow> heap (snd (annotate_det E m a det s)) b = heap s b"
    by simp_all
qed

lemma annotate_det_defined:
  assumes "heap s a = Some (img\<lparr>drawn := drawn img @ ds\<rparr>)"
  shows "\<exists>ds'. heap (snd (annotate_det E m a det s)) a
                 = Some (img\<lparr>drawn := drawn img @ ds'\<rparr>)"
proof (cases "unpack_det det")
  case (Inl e)
  then show ?thesis using assms by (auto simp: annotate_det_def)
next
  case (Inr v)
  obtain x1 y1 x2 y2 score class_id where v: "v = (x1, y1, x2, y2, score, class_id)"
    by (metis surj_pair)
  obtain tw th bl where
    g: "getTextSize E (label_text (names m) class_id score) (6 / 10) 2 = ((tw, th), bl)"
    by (metis surj_pair)
  let ?r1 = "cv2_rectangle E a (x1, y1) (x2, y2) (0, 255, 0) 2 s"
  let ?r2 = "cv2_rectangle E a (x1, text_y_of y1 th bl - th - bl)
               (x1 + tw, text_y_of y1 th bl) (0, 255, 0) (- 1) (snd ?r1)"
  let ?r3 = "cv2_putText E a (label_text (names m) class_id score)
               (x1, text_y_of y1 th bl - bl div 2) (6 / 10) (0, 0, 0) 2 (snd ?r2)"
  from cv2_rectangle_defined [OF assms] obtain d1
    where h1: "heap (snd ?r1) a = Some (img\<lparr>drawn := drawn img @ d1\<rparr>)" by blast
  from cv2_rectangle_defined [OF h1] obtain d2
    where h2: "heap (snd ?r2) a = Some (img\<lparr>drawn := drawn img @ d2\<rparr>)" by blast
  from cv2_putText_defined [OF h2] obtain d3
    where h3: "heap (snd ?r3) a = Some (img\<lparr>drawn := drawn img @ d3\<rparr>)" by blast
  have "snd (annotate_det E m a det s) = snd ?r1
      \<or> snd (annotate_det E m a det s) = snd ?r2
      \<or> snd (annotate_det E m a det s) = snd ?r3"
    unfolding annotate_det_unfold [OF Inr [unfolded v] g]
    by (auto split: prod.splits sum.splits)
  with h1 h2 h3 show ?thesis by metis
qed

text \<open>The loop over the detections changes nothing but the frame it draws on.\<close>

lemma annotate_frame_all:
  "trace (snd (annotate E m a dets s)) = trace s
   \<and> next_ref (snd (annotate E m a dets s)) = next_ref s
   \<and> (b \<noteq> a \<longrightarrow> heap (snd (annotate E m a dets s)) b = heap s b)"
proof (induction dets arbitrary: s)
  case Nil
  show ?case by simp
next
  case (Cons det dets)
  obtain r s1 where d: "annotate_det E m a det s = (r, s1)" by (cases "annotate_det E m a det s")
  have "trace s1 = trace s" using annotate_det_frame(1) [of E m a det s] d by simp
  moreover have "next_ref s1 = next_ref s" using annotate_det_frame(2) [of E m a det s] d by simp
  moreover have "b \<noteq> a \<longrightarrow> heap s1 b = heap s b"
    using annotate_det_frame(3) [of b a E m det s] d by simp
  ultimately show ?case using d Cons.IH [of s1] by (cases r) simp_all
qed

lemma annotate_frame:
  "trace (snd (annotate E m a dets s)) = trace s"
  "next_ref (snd (annotate E m a dets s)) = next_ref s"
  "b \<noteq> a \<Longrightarrow> heap (snd (annotate E m a dets s)) b = heap s b"
  using annotate_frame_all [of E m a dets s b] by simp_all

lemma annotate_defined_gen:
  "heap s a = Some (img\<lparr>drawn := drawn img @ ds\<rparr>) \<Longrightarrow>
     \<exists>ds'. heap (snd (annotate E m a dets s)) a = Some (img\<lparr>drawn := drawn img @ ds'\<rparr>)"
proof (induction dets arbitrary: s ds)
  case Nil
  then show ?case by auto
next
  case (Cons det dets)
  obtain r s1 where d: "annotate_det E m a det s = (r, s1)" by (cases "annotate_det E m a det s")
  from annotate_det_defined [OF Cons.prems, of E m det] d obtain d1
    where h1: "heap s1 a = Some (img\<lparr>drawn := drawn img @ d1\<rparr>)" by auto
  show ?case
  proof (cases r)
    case (Inl e)
    then show ?thesis using d h1 by auto
  next
    case (Inr u)
    then show ?thesis using d Cons.IH [OF h1] by simp
  qed
qed

lemma annotate_defined:
  assumes "heap s a = Some img"
  shows "\<exists>ds. heap (snd (annotate E m a dets s)) a = Some (img\<lparr>drawn := drawn img @ ds\<rparr>)"
proof -
  have "heap s a = Some (img\<lparr>drawn := drawn img @ []\<rparr>)" using assms by simp
  then show ?thesis by (rule annotate_defined_gen)
qed

lemma np_copy_fresh:
  assumes "heap s a = Some img"
  shows "np_copy a s = (next_ref s, s\<lparr>heap := (heap s)(next_ref s \<mapsto> img),
                                       next_ref := Suc (next_ref s)\<rparr>)"
  using assms by (simp add: np_copy_def alloc_def)

text \<open>One iteration whose prediction raises.\<close>

lemma process_frame_failed:
  assumes "predict m f device = Inl e"
  shows "\<exists>s'. process_frame E m device tot frame f n s = (Inr (), s')
           \<and> io_events (trace s') = io_events (trace s)
           \<and> written (trace s') = written (trace s)
           \<and> frames_read (trace s') = frames_read (trace s)
           \<and> failures (trace s') = failures (trace s) @ [(n, e)]
           \<and> heap s' = heap s \<and> next_ref s' = next_ref s"
  using assms by (simp add: process_frame_def)

text \<open>One iteration whose prediction returns: the frame behind \<open>frame\<close> is left as
  it is, and if the iteration ends normally exactly one frame is written, the content
  of \<open>frame\<close> with drawing calls added.\<close>

lemma process_frame_predicted:
  assumes p: "predict m f device = Inr results"
      and h: "heap s frame = Some f" and lt: "frame < next_ref s"
  shows "heap (snd (process_frame E m device tot frame f n s)) frame = Some f"
    and "fst (process_frame E m device tot frame f n s) = Inr () \<Longrightarrow>
           \<exists>ds. written (trace (snd (process_frame E m device tot frame f n s)))
                  = written (trace s) @ [f\<lparr>drawn := drawn f @ ds\<rparr>]
              \<and> frames_read (trace (snd (process_frame E m device tot frame f n s)))
                  = frames_read (trace s)
              \<and> failures (trace (snd (process_frame E m device tot frame f n s)))
                  = failures (trace s)"
proof -
  define s1 where "s1 = (if n mod 100 = 0 then emit (Log INFO (Progress n tot)) s else s)"
  have s1: "heap s1 = heap s" "next_ref s1 = next_ref s"
    "written (trace s1) = written (trace s)" "frames_read (trace s1) = frames_read (trace s)"
    "failures (trace s1) = failures (trace s)"
    by (simp_all add: s1_def)
  define c where "c = next_ref s"
  define s2 where "s2 = s1\<lparr>heap := (heap s1)(c \<mapsto> f), next_ref := Suc c\<rparr>"
  have cp: "np_copy frame s1 = (c, s2)"
    using h s1 by (simp add: np_copy_fresh s2_def c_def)
  have ne: "frame \<noteq> c" using lt by (simp add: c_def)
  have h2: "heap s2 c = Some f" "heap s2 frame = Some f" "trace s2 = trace s1"
    using h s1 ne by (simp_all add: s2_def)
  have pf: "process_frame E m device tot frame f n s =
      (case boxes_data results of
         Inl e \<Rightarrow> (Inl e, s2)
       | Inr detections \<Rightarrow>
           (case annotate E m c detections s2 of
              (Inl e, s3) \<Rightarrow> (Inl e, s3)
            | (Inr u, s3) \<Rightarrow> (Inr (), writer_write c s3)))"
    using p cp by (simp add: process_frame_def s1_def [symmetric])
  show "heap (snd (process_frame E m device tot frame f n s)) frame = Some f"
  proof (cases "boxes_data results")
    case (Inl e)
    then show ?thesis using pf h2 by simp
  next
    case (Inr dets)
    obtain r s3 where a: "annotate E m c dets s2 = (r, s3)" by (cases "annotate E m c dets s2")
    have "heap s3 frame = heap s2 frame"
      using annotate_frame(3) [OF ne, of E m dets s2] a by simp
    then show ?thesis using pf Inr a h2
      by (cases r) (simp_all add: writer_write_def split: option.splits)
  qed
  show "\<exists>ds. written (trace (snd (process_frame E m device tot frame f n s)))
                  = written (trace s) @ [f\<lparr>drawn := drawn f @ ds\<rparr>]
              \<and> frames_read (trace (snd (process_frame E m device tot frame f n s)))
                  = frames_read (trace s)
              \<and> failures (trace (snd (process_frame E m device tot frame f n s)))
                  = failures (trace s)"
    if ok: "fst (process_frame E m device tot frame f n s) = Inr ()"
  proof (cases "boxes_data results")
    case (Inl e)
    then show ?thesis using pf ok by simp
  next
    case (Inr dets)
    obtain r s3 where a: "annotate E m c dets s2 = (r, s3)" by (cases "annotate E m c dets s2")
    from annotate_defined [OF h2(1), of E m dets] a obtain ds
      where d: "heap s3 c = Some (f\<lparr>drawn := drawn f @ ds\<rparr>)" by auto
    have t: "trace s3 = trace s1" using annotate_frame(1) [of E m c dets s2] a h2 by simp
    have "r = Inr ()" using pf Inr a ok by (cases r) simp_all
    then have "process_frame E m device tot frame f n s = (Inr (), writer_write c s3)"
      using pf Inr a by simp
    then show ?thesis using d t s1 by (auto simp: writer_write_def)
  qed
qed


lemma process_frame_empty:
  assumes p: "predict m f device = Inr results" and b: "boxes_data results = Inr []"
      and h: "heap s frame = Some f"
  shows "\<exists>s'. process_frame E m device tot frame f n s = (Inr (), s')
           \<and> io_events (trace s') = io_events (trace s) @ [Writer_write f]
           \<and> written (trace s') = written (trace s) @ [f]
           \<and> heap s' frame = Some f"
  using assms
  by (auto simp: process_frame_def np_copy_def alloc_def writer_write_def Let_def)

text \<open>The state in which the loop body runs: the frame just read lies behind a new
  reference.\<close>

lemma frame_loop_Cons:
  "frame_loop E m device tot (f # fs) fc s =
     (case process_frame E m device tot (next_ref s) f (fc + 1)
             (snd (alloc f (emit (Cap_read (Some f)) s))) of
        (Inl e, s2) \<Rightarrow> (Inl e, s2)
      | (Inr u, s2) \<Rightarrow> frame_loop E m device tot fs (fc + 1) s2)"
  by (simp add: alloc_def emit_def)

lemma frame_loop_completed:
  assumes "frame_loop E m device tot fs fc s = (Inr (), s')"
  shows "frames_read (trace s') = frames_read (trace s) @ fs
       \<and> length (written (trace s'))
           = length (written (trace s)) + length [f \<leftarrow> fs. \<not> isl (predict m f device)]
       \<and> length (failures (trace s'))
           = length (failures (trace s)) + length [f \<leftarrow> fs. isl (predict m f device)]"
  using assms
proof (induction fs arbitrary: fc s)
  case Nil
  then show ?case by auto
next
  case (Cons f fs)
  let ?s1 = "snd (alloc f (emit (Cap_read (Some f)) s))"
  let ?pf = "process_frame E m device tot (next_ref s) f (fc + 1) ?s1"
  have s1: "heap ?s1 (next_ref s) = Some f" "next_ref s < next_ref ?s1"
    "frames_read (trace ?s1) = frames_read (trace s) @ [f]"
    "written (trace ?s1) = written (trace s)" "failures (trace ?s1) = failures (trace s)"
    by simp_all
  obtain r s2 where pf: "?pf = (r, s2)" by (cases ?pf)
  have r: "r = Inr ()" and loop: "frame_loop E m device tot fs (fc + 1) s2 = (Inr (), s')"
    using Cons.prems pf unfolding frame_loop_Cons by (cases r; simp)+
  note IH = Cons.IH [OF loop]
  show ?case
  proof (cases "predict m f device")
    case (Inl e)
    from process_frame_failed [OF Inl, of E tot "next_ref s" "fc + 1" ?s1] pf
    have "written (trace s2) = written (trace ?s1)"
      "frames_read (trace s2) = frames_read (trace ?s1)"
      "failures (trace s2) = failures (trace ?s1) @ [(fc + 1, e)]"
      by auto
    with IH s1 Inl show ?thesis by simp
  next
    case (Inr results)
    from process_frame_predicted(2) [OF Inr s1(1) s1(2), of E tot "fc + 1"] pf r
    obtain ds where "written (trace s2) = written (trace ?s1) @ [f\<lparr>drawn := drawn f @ ds\<rparr>]"
      "frames_read (trace s2) = frames_read (trace ?s1)"
      "failures (trace s2) = failures (trace ?s1)"
      by auto
    with IH s1 Inr show ?thesis by simp
  qed
qed


section \<open>Integers and floats as text\<close>

lemma digit_char_is_digit:
  assumes "d < 10"
  shows "is_digit (digit_char d)"
proof -
  have "list_all (\<lambda>d. is_digit (digit_char d)) [0..<10]" by code_simp
  moreover from assms have "d \<in> set [0..<10]" by simp
  ultimately show ?thesis unfolding list_all_iff by blast
qed

lemma digit_val_digit_char:
  assumes "d < 10"
  shows "digit_val (digit_char d) = d"
  using assms by (simp add: digit_val_def digit_char_def)

lemma str_nat_digits: "list_all is_digit (str_nat n)"
proof (induction n rule: str_nat.induct)
  case (1 n)
  show ?case
  proof (cases "n < 10")
    case True
    then show ?thesis by (subst str_nat.simps) (simp add: digit_char_is_digit)
  next
    case False
    with 1 show ?thesis by (subst str_nat.simps) (simp add: digit_char_is_digit)
  qed
qed

lemma str_nat_nonempty: "str_nat n \<noteq> []"
  by (subst str_nat.simps) simp

lemma decimal_val_snoc: "decimal_val (s @ [c]) = 10 * decimal_val s + digit_val c"
  by (simp add: decimal_val_def)

lemma decimal_val_str_nat: "decimal_val (str_nat n) = n"
proof (induction n rule: str_nat.induct)
  case (1 n)
  show ?case
  proof (cases "n < 10")
    case True
    then show ?thesis
      by (subst str_nat.simps) (simp add: decimal_val_def digit_val_digit_char)
  next
    case False
    with 1 show ?thesis
      by (subst str_nat.simps) (simp add: decimal_val_snoc digit_val_digit_char)
  qed
qed

lemma round_half_even_cases:
  fixes q :: rat
  shows "round_half_even q = \<lfloor>q\<rfloor> \<or> round_half_even q = \<lfloor>q\<rfloor> + 1"
    and "round_half_even q = \<lfloor>q\<rfloor> \<Longrightarrow> q - of_int \<lfloor>q\<rfloor> \<le> 1 / 2"
    and "round_half_even q = \<lfloor>q\<rfloor> + 1 \<Longrightarrow> 1 / 2 \<le> q - of_int \<lfloor>q\<rfloor>"
  unfolding round_half_even_def Let_def
  by (simp_all split: if_splits)

lemma round_half_even_near: "\<bar>of_int (round_half_even q) - q\<bar> \<le> 1 / 2"
proof -
  have fl: "of_int \<lfloor>q\<rfloor> \<le> q" "q < of_int \<lfloor>q\<rfloor> + 1" by linarith+
  from round_half_even_cases(1) [of q] show ?thesis
  proof
    assume a: "round_half_even q = \<lfloor>q\<rfloor>"
    from round_half_even_cases(2) [OF a] fl show ?thesis unfolding a by linarith
  next
    assume a: "round_half_even q = \<lfloor>q\<rfloor> + 1"
    have "(of_int (\<lfloor>q\<rfloor> + 1) :: rat) = of_int \<lfloor>q\<rfloor> + 1" by simp
    with round_half_even_cases(3) [OF a] fl show ?thesis unfolding a by linarith
  qed
qed

lemma round_half_even_nonneg:
  assumes "0 \<le> q"
  shows "0 \<le> round_half_even q"
proof -
  have "0 \<le> \<lfloor>q\<rfloor>" using assms by simp
  with round_half_even_cases(1) [of q] show ?thesis by linarith
qed

lemma two_digits: "10 * (h mod 100 div 10) + h mod 10 = h mod (100::nat)"
proof -
  have "h mod 100 mod 10 = h mod 10" by (simp add: mod_mod_cancel)
  moreover have "10 * (h mod 100 div 10) + h mod 100 mod 10 = h mod 100"
    by (rule mult_div_mod_eq)
  ultimately show ?thesis by simp
qed

lemma format_2f_finite:
  fixes r :: rat
  defines "h \<equiv> nat (round_half_even (\<bar>r\<bar> * 100))"
  shows "format_2f (Fin r) = (if r < 0 then ''-'' else []) @ str_nat (h div 100) @ ''.''
            @ [digit_char (h mod 100 div 10), digit_char (h mod 10)]"
    and "decimal_val (str_nat (h div 100)) * 100
           + decimal_val [digit_char (h mod 100 div 10), digit_char (h mod 10)] = h"
    and "\<bar>of_nat h / 100 - \<bar>r\<bar>\<bar> \<le> 1 / 200"
proof -
  show "format_2f (Fin r) = (if r < 0 then ''-'' else []) @ str_nat (h div 100) @ ''.''
            @ [digit_char (h mod 100 div 10), digit_char (h mod 10)]"
    by (simp add: format_2f_def h_def Let_def)
  have "decimal_val [digit_char (h mod 100 div 10), digit_char (h mod 10)]
          = 10 * (h mod 100 div 10) + h mod 10"
    by (simp add: decimal_val_def digit_val_digit_char)
  also have "\<dots> = h mod 100" by (rule two_digits)
  finally show "decimal_val (str_nat (h div 100)) * 100
           + decimal_val [digit_char (h mod 100 div 10), digit_char (h mod 10)] = h"
    by (simp add: decimal_val_str_nat)
  have nn: "0 \<le> round_half_even (\<bar>r\<bar> * 100)"
    by (rule round_half_even_nonneg) simp
  then have "(of_nat h :: rat) = of_int (round_half_even (\<bar>r\<bar> * 100))"
    by (simp add: h_def)
  moreover have "\<bar>of_int (round_half_even (\<bar>r\<bar> * 100)) - \<bar>r\<bar> * 100\<bar> \<le> 1 / 2"
    by (rule round_half_even_near)
  ultimately have "\<bar>of_nat h - \<bar>r\<bar> * 100\<bar> \<le> 1 / 2" by simp
  then have "of_nat h - \<bar>r\<bar> * 100 \<le> 1 / 2" "- (1 / 2) \<le> of_nat h - \<bar>r\<bar> * 100"
    by linarith+
  then have "of_nat h / 100 - \<bar>r\<bar> \<le> 1 / 200" "- (1 / 200) \<le> of_nat h / 100 - \<bar>r\<bar>"
    by linarith+
  then show "\<bar>of_nat h / 100 - \<bar>r\<bar>\<bar> \<le> 1 / 200" by linarith
qed

lemma digit_char_zero: "digit_char 0 = CHR ''0''"
  by code_simp

lemma str_nat_zero: "str_nat 0 = ''0''"
  by (subst str_nat.simps) (simp add: digit_char_zero)

lemma str_nat_leading:
  assumes "hd (str_nat n) = CHR ''0''"
  shows "n = 0"
  using assms
proof (induction n rule: str_nat.induct)
  case (1 n)
  show ?case
  proof (cases "n < 10")
    case True
    then have "str_nat n = [digit_char n]" by (subst str_nat.simps) simp
    with "1.prems" have "digit_char n = digit_char 0" by (simp add: digit_char_zero)
    then have "digit_val (digit_char n) = digit_val (digit_char 0)" by simp
    with True show ?thesis by (simp add: digit_val_digit_char)
  next
    case False
    then have "str_nat n = str_nat (n div 10) @ [digit_char (n mod 10)]"
      by (subst str_nat.simps) simp
    with "1.prems" have "hd (str_nat (n div 10)) = CHR ''0''"
      by (simp add: str_nat_nonempty)
    with "1.IH" False have "n div 10 = 0" by simp
    with False show ?thesis by simp
  qed
qed

lemma str_int_shape:
  "\<exists>ds. str_int i = (if i < 0 then ''-'' else []) @ ds
     \<and> ds \<noteq> [] \<and> list_all is_digit ds \<and> int (decimal_val ds) = \<bar>i\<bar>
     \<and> (hd ds = CHR ''0'' \<longrightarrow> ds = ''0'')"
proof -
  let ?ds = "str_nat (nat \<bar>i\<bar>)"
  have "str_int i = (if i < 0 then ''-'' else []) @ ?ds"
    by (simp add: str_int_def)
  moreover have "?ds \<noteq> []" by (rule str_nat_nonempty)
  moreover have "list_all is_digit ?ds" by (rule str_nat_digits)
  moreover have "int (decimal_val ?ds) = \<bar>i\<bar>" by (simp add: decimal_val_str_nat)
  moreover have "hd ?ds = CHR ''0'' \<longrightarrow> ?ds = ''0''"
    using str_nat_leading [of "nat \<bar>i\<bar>"] str_nat_zero by auto
  ultimately show ?thesis by blast
qed

section \<open>The drawing calls of one detection\<close>

lemma unpack_det_finite:
  "unpack_det [Fin x1, Fin y1, Fin x2, Fin y2, score, Fin k]
     = Inr (trunc x1, trunc y1, trunc x2, trunc y2, score, trunc k)"
  by (simp add: unpack_det_def ebind_def py_int_def)

text \<open>A row of finite values: the three calls in order, each drawing or raising.\<close>

lemma annotate_det_finite:
  assumes "getTextSize E (label_text (names m) (trunc k) score) (6 / 10) 2 = ((tw, th), bl)"
  shows "annotate_det E m a [Fin x1, Fin y1, Fin x2, Fin y2, score, Fin k] s =
     (case rectangle_error E (trunc x1, trunc y1) (trunc x2, trunc y2) (0, 255, 0) 2 of
        Some e \<Rightarrow> (Inl e, s)
      | None \<Rightarrow>
         (let s1 = draw_on a s (Rectangle (trunc x1, trunc y1) (trunc x2, trunc y2) (0, 255, 0) 2)
          in case rectangle_error E (trunc x1, text_y_of (trunc y1) th bl - th - bl)
                    (trunc x1 + tw, text_y_of (trunc y1) th bl) (0, 255, 0) (- 1) of
               Some e \<Rightarrow> (Inl e, s1)
             | None \<Rightarrow>
                (let s2 = draw_on a s1
                            (Rectangle (trunc x1, text_y_of (trunc y1) th bl - th - bl)
                               (trunc x1 + tw, text_y_of (trunc y1) th bl) (0, 255, 0) (- 1))
                 in case putText_error E (label_text (names m) (trunc k) score)
                           (trunc x1, text_y_of (trunc y1) th bl - bl div 2) (6 / 10)
                           (0, 0, 0) 2 of
                      Some e \<Rightarrow> (Inl e, s2)
                    | None \<Rightarrow>
                        (Inr (), draw_on a s2
                                   (PutText (label_text (names m) (trunc k) score)
                                      (trunc x1, text_y_of (trunc y1) th bl - bl div 2)
                                      (6 / 10) (0, 0, 0) 2)))))"
  unfolding annotate_det_unfold [OF unpack_det_finite assms]
  by (simp add: cv2_rectangle_def cv2_putText_def Let_def split: option.splits)

lemma draw_on_thrice:
  assumes "heap s a = Some img"
  shows "heap (draw_on a (draw_on a (draw_on a s d1) d2) d3) a
           = Some (img\<lparr>drawn := drawn img @ [d1, d2, d3]\<rparr>)"
  using assms by (simp add: draw_on_def)

section \<open>The frame loop of \<open>process_video\<close>\<close>

lemma demo_load: "load_model demo_env ''best.pt'' (device_of demo_env) = Inr demo_model"
  by (simp add: load_model_def ebind_def demo_env_def demo_model_def)

lemma demo_clip_run:
  "fst (process_video demo_env ''clip.mp4'' ''out.mp4'' ''best.pt'') = Inr ()"
  "frames_read (trace (snd (process_video demo_env ''clip.mp4'' ''out.mp4'' ''best.pt'')))
     = [frame_a, frame_b, frame_c]"
  "written (trace (snd (process_video demo_env ''clip.mp4'' ''out.mp4'' ''best.pt'')))
     = [frame_a,
        frame_c\<lparr>drawn := [Rectangle (5, 5) (5, 5) (0, 255, 0) 2,
                          Rectangle (5, 5) (87, 25) (0, 255, 0) (- 1),
                          PutText ''stop: 0.50'' (5, 23) (6 / 10) (0, 0, 0) 2]\<rparr>]"
  "failures (trace (snd (process_video demo_env ''clip.mp4'' ''out.mp4'' ''best.pt'')))
     = [(2, LibraryError ''inference failed'')]"
  by code_simp+

text \<open>
  Claim C1, as amended. On every run that returns normally, every frame of the source
  is read, each frame whose prediction raises leaves one logged failure and no
  written frame, and the frames written together with the logged failures are as many
  as the frames read: the number of frames written is the number read minus the number
  whose inference raised. An iteration whose prediction raises logs the failure with
  its frame number, writes nothing and goes on with the next read.
\<close>

theorem written_frames_count:
  "(process_video E input_video_path output_video_path model_path = (Inr (), s)
      \<and> load_model E model_path (device_of E) = Inr m
      \<and> VideoCapture E input_video_path = Some v \<longrightarrow>
        frames_read (trace s) = frames v
        \<and> length (failures (trace s))
            = length [f \<leftarrow> frames v. isl (predict m f (device_of E))]
        \<and> length (written (trace s)) + length (failures (trace s))
            = length (frames_read (trace s)))
   \<and> (predict m' f device = Inl e \<longrightarrow>
        (\<exists>s'. frame_loop E m' device tot (f # fs) fc s0
                 = frame_loop E m' device tot fs (fc + 1) s'
           \<and> io_events (trace s') = io_events (trace s0) @ [Cap_read (Some f)]
           \<and> failures (trace s') = failures (trace s0) @ [(fc + 1, e)]))"
proof (intro conjI impI)
  assume a: "process_video E input_video_path output_video_path model_path = (Inr (), s)
      \<and> load_model E model_path (device_of E) = Inr m
      \<and> VideoCapture E input_video_path = Some v"
  then obtain s1 s5
    where loop: "frame_loop E m (device_of E) (trunc (FRAME_COUNT v)) (frames v) 0 s1
                   = (Inr (), s5)"
      and s1: "frames_read (trace s1) = []" "written (trace s1) = []" "failures (trace s1) = []"
      and s: "frames_read (trace s) = frames_read (trace s5)"
        "written (trace s) = written (trace s5)" "failures (trace s) = failures (trace s5)"
    by (auto simp: process_video_def Let_def split: if_splits prod.splits sum.splits)
  from frame_loop_completed [OF loop] s1 s
  have r: "frames_read (trace s) = frames v"
    and w: "length (written (trace s))
              = length [f \<leftarrow> frames v. \<not> isl (predict m f (device_of E))]"
    and f: "length (failures (trace s))
              = length [f \<leftarrow> frames v. isl (predict m f (device_of E))]"
    by simp_all
  show "frames_read (trace s) = frames v" by (rule r)
  show "length (failures (trace s))
          = length [f \<leftarrow> frames v. isl (predict m f (device_of E))]" by (rule f)
  show "length (written (trace s)) + length (failures (trace s))
          = length (frames_read (trace s))"
    using sum_length_filter_compl [of "\<lambda>f. isl (predict m f (device_of E))" "frames v"]
    by (simp add: r w f)
next
  assume p: "predict m' f device = Inl e"
  let ?s1 = "snd (alloc f (emit (Cap_read (Some f)) s0))"
  from process_frame_failed [OF p, of E tot "next_ref s0" "fc + 1" ?s1]
  obtain s' where "process_frame E m' device tot (next_ref s0) f (fc + 1) ?s1 = (Inr (), s')"
    "io_events (trace s') = io_events (trace ?s1)"
    "failures (trace s') = failures (trace ?s1) @ [(fc + 1, e)]" by blast
  then show "\<exists>s'. frame_loop E m' device tot (f # fs) fc s0
                 = frame_loop E m' device tot fs (fc + 1) s'
           \<and> io_events (trace s') = io_events (trace s0) @ [Cap_read (Some f)]
           \<and> failures (trace s') = failures (trace s0) @ [(fc + 1, e)]"
    unfolding frame_loop_Cons by auto
qed

theorem written_frames_count_witness:
  "process_video demo_env ''clip.mp4'' ''out.mp4'' ''best.pt''
     = (Inr (), snd (process_video demo_env ''clip.mp4'' ''out.mp4'' ''best.pt''))
   \<and> load_model demo_env ''best.pt'' (device_of demo_env) = Inr demo_model
   \<and> VideoCapture demo_env ''clip.mp4'' = Some (demo_video [frame_a, frame_b, frame_c])
   \<and> length (written (trace (snd (process_video demo_env ''clip.mp4'' ''out.mp4'' ''best.pt''))))
       + length (failures (trace (snd (process_video demo_env ''clip.mp4'' ''out.mp4''
                                         ''best.pt''))))
       = length (frames_read (trace (snd (process_video demo_env ''clip.mp4'' ''out.mp4''
                                            ''best.pt''))))
   \<and> predict demo_model frame_b ''cpu'' = Inl (LibraryError ''inference failed'')
   \<and> (\<exists>s'. frame_loop demo_env demo_model ''cpu'' 3 [frame_b, frame_c] 1 init_state
               = frame_loop demo_env demo_model ''cpu'' 3 [frame_c] (1 + 1) s'
          \<and> failures (trace s') = failures (trace init_state)
                                   @ [(1 + 1, LibraryError ''inference failed'')])"
proof -
  let ?run = "process_video demo_env ''clip.mp4'' ''out.mp4'' ''best.pt''"
  have h1: "?run = (Inr (), snd ?run)"
    using demo_clip_run(1) by (metis prod.collapse)
  have h3: "VideoCapture demo_env ''clip.mp4'' = Some (demo_video [frame_a, frame_b, frame_c])"
    by (simp add: demo_env_def)
  have h4: "predict demo_model frame_b ''cpu'' = Inl (LibraryError ''inference failed'')"
    by (simp add: demo_model_def frame_b_def)
  from written_frames_count
         [of demo_env "''clip.mp4''" "''out.mp4''" "''best.pt''" "snd ?run" demo_model
             "demo_video [frame_a, frame_b, frame_c]" demo_model frame_b "''cpu''"
             "LibraryError ''inference failed''" 3 "[frame_c]" 1 init_state]
       h1 demo_load h3 h4
  show ?thesis by blast
qed

text \<open>
  The claim as stated fails on a three-frame video whose second frame makes the
  detector raise: three frames are read and two are written.
\<close>

theorem written_frames_count_counterexample:
  "fst (process_video demo_env ''clip.mp4'' ''out.mp4'' ''best.pt'') = Inr ()
   \<and> predict demo_model frame_b (device_of demo_env) = Inl (LibraryError ''inference failed'')
   \<and> length (frames_read (trace (snd (process_video demo_env ''clip.mp4'' ''out.mp4''
                                         ''best.pt'')))) = 3
   \<and> length (written (trace (snd (process_video demo_env ''clip.mp4'' ''out.mp4''
                                     ''best.pt'')))) = 2
   \<and> frame_b \<notin> set (written (trace (snd (process_video demo_env ''clip.mp4'' ''out.mp4''
                                           ''best.pt''))))"
  by code_simp

text \<open>
  Claim C2. The claim holds of the exit taken when the writer does not open (the
  capture is released before the IOError, lemma \<open>writer_failure_releases_capture\<close>)
  and fails of an exception raised inside the loop: on a video whose second frame
  yields a detection row with a NaN coordinate, \<open>int(x1)\<close> raises ValueError outside
  any handler, and the run ends with the capture and the writer both open and neither
  released.
\<close>

theorem loop_exception_skips_release:
  "fst (process_video demo_env ''nan.mp4'' ''out.mp4'' ''best.pt'')
     = Inl (ValueError ''cannot convert float NaN to integer'')
   \<and> io_events (trace (snd (process_video demo_env ''nan.mp4'' ''out.mp4'' ''best.pt'')))
       = [Capture_open ''nan.mp4'' True,
          Writer_open ''out.mp4'' ''mp4v'' 25 (100, 100) True,
          Cap_read (Some frame_a), Writer_write frame_a, Cap_read (Some frame_d)]
   \<and> Cap_release \<notin> set (trace (snd (process_video demo_env ''nan.mp4'' ''out.mp4''
                                         ''best.pt'')))
   \<and> Writer_release \<notin> set (trace (snd (process_video demo_env ''nan.mp4'' ''out.mp4''
                                            ''best.pt'')))"
  by code_simp

lemma writer_failure_releases_capture:
  assumes "load_model E model_path (device_of E) = Inr m"
      and "VideoCapture E input_video_path = Some v"
      and "\<not> VideoWriter E output_video_path ''mp4v'' (FPS v)
               (trunc (FRAME_WIDTH v), trunc (FRAME_HEIGHT v))"
  shows "fst (process_video E input_video_path output_video_path model_path)
           = Inl (IOError (''Cannot initialize video writer for: '' @ output_video_path))
       \<and> io_events (trace (snd (process_video E input_video_path output_video_path model_path)))
           = [Capture_open input_video_path True,
              Writer_open output_video_path ''mp4v'' (FPS v)
                (trunc (FRAME_WIDTH v), trunc (FRAME_HEIGHT v)) False,
              Cap_release]"
  using assms by (simp add: process_video_def Let_def)

lemma loop_completion_releases_both:
  assumes "process_video E input_video_path output_video_path model_path = (Inr (), s)"
  shows "\<exists>tr. io_events (trace s) = tr @ [Cap_release, Writer_release]"
  using assms
  by (auto simp: process_video_def Let_def split: if_splits prod.splits sum.splits option.splits)

section \<open>Annotation\<close>




text \<open>
  Claim C4. The claim fails on the code: line 103 compares \<open>y1 - 10\<close> with the
  text height alone, while line 104 puts the top of the background at
  \<open>text_y - text_height - baseline\<close> and line 105 the text at
  \<open>text_y - baseline // 2\<close>. On a 100 by 100 frame with the valid box
  (10, 27, 60, 70) and the text metrics ((82, 16), 4), \<open>y1 - 10 = 17 > 16\<close>, so the
  label goes above the box: its background starts at y = -3 and its text, put at
  (10, 15) with height 16, starts at y = -1, above the top of the frame.
\<close>

theorem label_above_box_leaves_frame:
  "valid_box frame_e (10, 27, 60, 70)
   \<and> predict demo_model frame_e ''cpu''
       = Inr [Some [[Fin 10, Fin 27, Fin 60, Fin 70, Fin (1 / 2), Fin 0]]]
   \<and> getTextSize demo_env ''stop: 0.50'' (6 / 10) 2 = ((82, 16), 4)
   \<and> text_y_of 27 16 4 = 17
   \<and> fst (process_video demo_env ''edge.mp4'' ''out.mp4'' ''best.pt'') = Inr ()
   \<and> written (trace (snd (process_video demo_env ''edge.mp4'' ''out.mp4'' ''best.pt'')))
       = [frame_e\<lparr>drawn := [Rectangle (10, 27) (60, 70) (0, 255, 0) 2,
                            Rectangle (10, - 3) (92, 17) (0, 255, 0) (- 1),
                            PutText ''stop: 0.50'' (10, 15) (6 / 10) (0, 0, 0) 2]\<rparr>]
   \<and> \<not> text_in_frame frame_e (10, 15) 82 16"
  by code_simp

text \<open>
  Claim C7. For every detection row of finite values: when the loop body for the row
  ends normally, the last drawing call on the frame is the text, and the text is the
  class name, a colon and a space, and the score in the format \<open>:.2f\<close>, where the
  class name is the entry of the name table, and \<open>Class_\<close> followed by the id when
  the table has no entry. The lookup raises nothing: an exception that ends the loop
  body for such a row is one raised by a cv2 drawing call. The formatted score is a
  sign (for a negative score only), an integer part of at least one digit, a point and
  exactly two digits, and the number it denotes is within half a hundredth of the
  score. The id is rendered in decimal: a sign for a negative id, then the digits of
  its absolute value without leading zeros.
\<close>

theorem label_with_score_text:
  "(\<forall>img s'. heap s a = Some img
        \<and> annotate_det E m a [Fin x1, Fin y1, Fin x2, Fin y2, Fin sc, Fin k] s = (Inr (), s') \<longrightarrow>
        (\<exists>box bg org.
           heap s' a =
             Some (img\<lparr>drawn := drawn img @
                [box, bg,
                 PutText ((case names m (trunc k) of
                             Some n \<Rightarrow> n
                           | None \<Rightarrow> ''Class_'' @ str_int (trunc k))
                          @ '': '' @ format_2f (Fin sc)) org (6 / 10) (0, 0, 0) 2]\<rparr>)))
   \<and> (\<forall>e s'. annotate_det E m a [Fin x1, Fin y1, Fin x2, Fin y2, Fin sc, Fin k] s = (Inl e, s') \<longrightarrow>
        (\<exists>p q c t. rectangle_error E p q c t = Some e)
        \<or> (\<exists>txt org f c t. putText_error E txt org f c t = Some e))
   \<and> (names m (trunc k) = None \<longrightarrow>
        label_text (names m) (trunc k) (Fin sc)
          = ''Class_'' @ str_int (trunc k) @ '': '' @ format_2f (Fin sc))
   \<and> (\<exists>ip d1 d2.
        format_2f (Fin sc) = (if sc < 0 then ''-'' else []) @ ip @ ''.'' @ [d1, d2]
        \<and> ip \<noteq> [] \<and> list_all is_digit (ip @ [d1, d2])
        \<and> \<bar>of_nat (decimal_val ip * 100 + decimal_val [d1, d2]) / 100 - \<bar>sc\<bar>\<bar> \<le> 1 / 200)
   \<and> (\<exists>ds. str_int (trunc k) = (if trunc k < 0 then ''-'' else []) @ ds
        \<and> ds \<noteq> [] \<and> list_all is_digit ds \<and> int (decimal_val ds) = \<bar>trunc k\<bar>
        \<and> (hd ds = CHR ''0'' \<longrightarrow> ds = ''0''))"
proof (intro conjI allI impI)
  obtain tw th bl where
    g: "getTextSize E (label_text (names m) (trunc k) (Fin sc)) (6 / 10) 2 = ((tw, th), bl)"
    by (metis surj_pair)
  note unfold = annotate_det_finite [OF g, of a x1 y1 x2 y2 s]
  have lbl: "label_text (names m) (trunc k) (Fin sc)
               = (case names m (trunc k) of
                    Some n \<Rightarrow> n
                  | None \<Rightarrow> ''Class_'' @ str_int (trunc k)) @ '': '' @ format_2f (Fin sc)"
    by (simp add: label_text_def)
  {
    fix img s'
    assume a: "heap s a = Some img
        \<and> annotate_det E m a [Fin x1, Fin y1, Fin x2, Fin y2, Fin sc, Fin k] s = (Inr (), s')"
    then have h: "heap s a = Some img"
      and r: "annotate_det E m a [Fin x1, Fin y1, Fin x2, Fin y2, Fin sc, Fin k] s = (Inr (), s')"
      by simp_all
    from r [unfolded unfold] have
      "s' = draw_on a
              (draw_on a
                (draw_on a s
                  (Rectangle (trunc x1, trunc y1) (trunc x2, trunc y2) (0, 255, 0) 2))
                (Rectangle (trunc x1, text_y_of (trunc y1) th bl - th - bl)
                   (trunc x1 + tw, text_y_of (trunc y1) th bl) (0, 255, 0) (- 1)))
              (PutText (label_text (names m) (trunc k) (Fin sc))
                 (trunc x1, text_y_of (trunc y1) th bl - bl div 2) (6 / 10) (0, 0, 0) 2)"
      by (simp add: Let_def split: option.splits)
    then have "heap s' a =
        Some (img\<lparr>drawn := drawn img @
           [Rectangle (trunc x1, trunc y1) (trunc x2, trunc y2) (0, 255, 0) 2,
            Rectangle (trunc x1, text_y_of (trunc y1) th bl - th - bl)
              (trunc x1 + tw, text_y_of (trunc y1) th bl) (0, 255, 0) (- 1),
            PutText (label_text (names m) (trunc k) (Fin sc))
              (trunc x1, text_y_of (trunc y1) th bl - bl div 2) (6 / 10) (0, 0, 0) 2]\<rparr>)"
      using draw_on_thrice [OF h] by simp
    then show "\<exists>box bg org.
           heap s' a =
             Some (img\<lparr>drawn := drawn img @
                [box, bg,
                 PutText ((case names m (trunc k) of
                             Some n \<Rightarrow> n
                           | None \<Rightarrow> ''Class_'' @ str_int (trunc k))
                          @ '': '' @ format_2f (Fin sc)) org (6 / 10) (0, 0, 0) 2]\<rparr>)"
      unfolding lbl by blast
  }
  {
    fix e s'
    assume "annotate_det E m a [Fin x1, Fin y1, Fin x2, Fin y2, Fin sc, Fin k] s = (Inl e, s')"
    from this [unfolded unfold]
    show "(\<exists>p q c t. rectangle_error E p q c t = Some e)
        \<or> (\<exists>txt org f c t. putText_error E txt org f c t = Some e)"
      by (auto simp: Let_def split: option.splits)
  }
  {
    assume "names m (trunc k) = None"
    then show "label_text (names m) (trunc k) (Fin sc)
          = ''Class_'' @ str_int (trunc k) @ '': '' @ format_2f (Fin sc)"
      by (simp add: label_text_def)
  }
  show "\<exists>ip d1 d2.
        format_2f (Fin sc) = (if sc < 0 then ''-'' else []) @ ip @ ''.'' @ [d1, d2]
        \<and> ip \<noteq> [] \<and> list_all is_digit (ip @ [d1, d2])
        \<and> \<bar>of_nat (decimal_val ip * 100 + decimal_val [d1, d2]) / 100 - \<bar>sc\<bar>\<bar> \<le> 1 / 200"
  proof -
    let ?h = "nat (round_half_even (\<bar>sc\<bar> * 100))"
    let ?ip = "str_nat (?h div 100)"
    let ?d1 = "digit_char (?h mod 100 div 10)"
    let ?d2 = "digit_char (?h mod 10)"
    have "?h mod 100 div 10 < 10" "?h mod 10 < 10" by simp_all
    then have "is_digit ?d1" "is_digit ?d2" by (simp_all add: digit_char_is_digit)
    then have "list_all is_digit (?ip @ [?d1, ?d2])" by (simp add: str_nat_digits)
    moreover have "\<bar>of_nat (decimal_val ?ip * 100 + decimal_val [?d1, ?d2]) / 100 - \<bar>sc\<bar>\<bar>
                     \<le> 1 / 200"
      unfolding format_2f_finite(2) by (rule format_2f_finite(3))
    ultimately show ?thesis
      using format_2f_finite(1) [of sc] str_nat_nonempty [of "?h div 100"] by blast
  qed
  show "\<exists>ds. str_int (trunc k) = (if trunc k < 0 then ''-'' else []) @ ds
        \<and> ds \<noteq> [] \<and> list_all is_digit ds \<and> int (decimal_val ds) = \<bar>trunc k\<bar>
        \<and> (hd ds = CHR ''0'' \<longrightarrow> ds = ''0'')"
    by (rule str_int_shape)
qed

theorem label_with_score_text_witness:
  "names demo_model (trunc 7) = None
   \<and> label_text (names demo_model) (trunc 7) (Fin (7 / 8)) = ''Class_7: 0.88''
   \<and> heap (snd (alloc frame_c init_state)) 0 = Some frame_c
   \<and> fst (annotate_det demo_env demo_model 0 [Fin 5, Fin 5, Fin 5, Fin 5, Fin (1 / 2), Fin 0]
             (snd (alloc frame_c init_state))) = Inr ()
   \<and> (\<exists>box bg org.
         heap (snd (annotate_det demo_env demo_model 0
                      [Fin 5, Fin 5, Fin 5, Fin 5, Fin (1 / 2), Fin 0]
                      (snd (alloc frame_c init_state)))) 0
           = Some (frame_c\<lparr>drawn := drawn frame_c @
                     [box, bg, PutText ''stop: 0.50'' org (6 / 10) (0, 0, 0) 2]\<rparr>))
   \<and> fst (annotate_det demo_env demo_model 0
             [Fin 3000000000, Fin 5, Fin 5, Fin 5, Fin (1 / 2), Fin 0]
             (snd (alloc frame_c init_state))) = Inl (Cv2Error ''Bad argument'')
   \<and> ((\<exists>p q c t. rectangle_error demo_env p q c t = Some (Cv2Error ''Bad argument''))
        \<or> (\<exists>txt org f c t. putText_error demo_env txt org f c t
                               = Some (Cv2Error ''Bad argument'')))
   \<and> hd ''0'' = CHR ''0'' \<and> str_int (trunc 0) = ''0''"
proof -
  let ?s = "snd (alloc frame_c init_state)"
  let ?ok = "annotate_det demo_env demo_model 0 [Fin 5, Fin 5, Fin 5, Fin 5, Fin (1 / 2), Fin 0] ?s"
  let ?bad = "annotate_det demo_env demo_model 0
                [Fin 3000000000, Fin 5, Fin 5, Fin 5, Fin (1 / 2), Fin 0] ?s"
  have n: "names demo_model (trunc 7) = None" by code_simp
  have v: "''Class_'' @ str_int (trunc 7) @ '': '' @ format_2f (Fin (7 / 8)) = ''Class_7: 0.88''"
    by code_simp
  have h: "heap ?s 0 = Some frame_c" by simp
  have ok: "fst ?ok = Inr ()" by code_simp
  have bad: "fst ?bad = Inl (Cv2Error ''Bad argument'')" by code_simp
  have c0: "(case names demo_model (trunc 0) of
               Some n \<Rightarrow> n
             | None \<Rightarrow> ''Class_'' @ str_int (trunc 0)) @ '': '' @ format_2f (Fin (1 / 2))
            = ''stop: 0.50''" by code_simp
  have z: "str_int (trunc 0) = ''0''" by code_simp
  note unknown = label_with_score_text [of ?s 0 demo_env demo_model 5 5 5 5 "7 / 8" 7]
  note known = label_with_score_text [of ?s 0 demo_env demo_model 5 5 5 5 "1 / 2" 0]
  note huge = label_with_score_text [of ?s 0 demo_env demo_model 3000000000 5 5 5 "1 / 2" 0]
  from unknown n have
    "label_text (names demo_model) (trunc 7) (Fin (7 / 8))
       = ''Class_'' @ str_int (trunc 7) @ '': '' @ format_2f (Fin (7 / 8))"
    by blast
  with v have l7: "label_text (names demo_model) (trunc 7) (Fin (7 / 8)) = ''Class_7: 0.88''"
    by simp
  have "?ok = (Inr (), snd ?ok)" using ok by (metis prod.collapse)
  with known h have
    "\<exists>box bg org.
       heap (snd ?ok) 0
         = Some (frame_c\<lparr>drawn := drawn frame_c @
              [box, bg,
               PutText ((case names demo_model (trunc 0) of
                           Some n \<Rightarrow> n
                         | None \<Rightarrow> ''Class_'' @ str_int (trunc 0))
                        @ '': '' @ format_2f (Fin (1 / 2))) org (6 / 10) (0, 0, 0) 2]\<rparr>)"
    by blast
  then have d: "\<exists>box bg org.
       heap (snd ?ok) 0
         = Some (frame_c\<lparr>drawn := drawn frame_c @
                   [box, bg, PutText ''stop: 0.50'' org (6 / 10) (0, 0, 0) 2]\<rparr>)"
    unfolding c0 .
  have "?bad = (Inl (Cv2Error ''Bad argument''), snd ?bad)" using bad by (metis prod.collapse)
  with huge have r: "(\<exists>p q c t. rectangle_error demo_env p q c t = Some (Cv2Error ''Bad argument''))
        \<or> (\<exists>txt org f c t. putText_error demo_env txt org f c t
                               = Some (Cv2Error ''Bad argument''))"
    by blast
  show ?thesis using n l7 h ok d bad r z by simp
qed

text \<open>
  Claim C8. The loop body never changes the frame it was given: after the iteration,
  however it ends, the frame behind the reference returned by the read holds the
  decoded content; drawing goes to the copy. When the prediction returns an empty
  detection table, the iteration writes a frame equal to the one read and the loop
  goes on.
\<close>

theorem frame_is_not_mutated:
  "heap (snd (process_frame E m device tot (next_ref s) f n (snd (alloc f s)))) (next_ref s)
     = Some f
   \<and> (\<forall>results. predict m f device = Inr results \<and> boxes_data results = Inr [] \<longrightarrow>
        (\<exists>s'. frame_loop E m device tot (f # fs) fc s = frame_loop E m device tot fs (fc + 1) s'
           \<and> io_events (trace s') = io_events (trace s) @ [Cap_read (Some f), Writer_write f]
           \<and> heap s' (next_ref s) = Some f))"
proof (intro conjI allI impI)
  show "heap (snd (process_frame E m device tot (next_ref s) f n (snd (alloc f s)))) (next_ref s)
     = Some f"
  proof (cases "predict m f device")
    case (Inl e)
    from process_frame_failed [OF Inl, of E tot "next_ref s" n "snd (alloc f s)"]
    show ?thesis by auto
  next
    case (Inr results)
    show ?thesis by (rule process_frame_predicted(1) [OF Inr]) simp_all
  qed
next
  fix results
  assume a: "predict m f device = Inr results \<and> boxes_data results = Inr []"
  let ?s1 = "snd (alloc f (emit (Cap_read (Some f)) s))"
  have "heap ?s1 (next_ref s) = Some f" by simp
  from process_frame_empty [OF conjunct1 [OF a] conjunct2 [OF a] this, of E tot "fc + 1"]
  obtain s' where "process_frame E m device tot (next_ref s) f (fc + 1) ?s1 = (Inr (), s')"
    "io_events (trace s') = io_events (trace ?s1) @ [Writer_write f]"
    "heap s' (next_ref s) = Some f" by blast
  then show "\<exists>s'. frame_loop E m device tot (f # fs) fc s = frame_loop E m device tot fs (fc + 1) s'
           \<and> io_events (trace s') = io_events (trace s) @ [Cap_read (Some f), Writer_write f]
           \<and> heap s' (next_ref s) = Some f"
    unfolding frame_loop_Cons by auto
qed

theorem frame_is_not_mutated_witness:
  "predict demo_model frame_a ''cpu'' = Inr [Some []] \<and> boxes_data [Some []] = Inr []
   \<and> (\<exists>s'. frame_loop demo_env demo_model ''cpu'' 3 [frame_a, frame_b] 0 init_state
               = frame_loop demo_env demo_model ''cpu'' 3 [frame_b] (0 + 1) s'
          \<and> io_events (trace s') = io_events (trace init_state)
                                    @ [Cap_read (Some frame_a), Writer_write frame_a]
          \<and> heap s' (next_ref init_state) = Some frame_a)
   \<and> heap (snd (process_frame demo_env demo_model ''cpu'' 3 (next_ref init_state) frame_c 1
                   (snd (alloc frame_c init_state)))) (next_ref init_state) = Some frame_c"
proof -
  have p: "predict demo_model frame_a ''cpu'' = Inr [Some []]"
    by (simp add: demo_model_def frame_a_def)
  have b: "boxes_data [Some []] = Inr []"
    by (simp add: boxes_data_def py_index_def ebind_def)
  from frame_is_not_mutated [of demo_env demo_model "''cpu''" 3 init_state frame_a 1
                               "[frame_b]" 0] p b
  have "\<exists>s'. frame_loop demo_env demo_model ''cpu'' 3 [frame_a, frame_b] 0 init_state
               = frame_loop demo_env demo_model ''cpu'' 3 [frame_b] (0 + 1) s'
          \<and> io_events (trace s') = io_events (trace init_state)
                                    @ [Cap_read (Some frame_a), Writer_write frame_a]
          \<and> heap s' (next_ref init_state) = Some frame_a"
    by blast
  moreover from frame_is_not_mutated [of demo_env demo_model "''cpu''" 3 init_state frame_c 1
                               "[]" 0]
  have "heap (snd (process_frame demo_env demo_model ''cpu'' 3 (next_ref init_state) frame_c 1
                   (snd (alloc frame_c init_state)))) (next_ref init_state) = Some frame_c"
    by blast
  ultimately show ?thesis using p b by blast
qed

section \<open>Failures before the loop\<close>

text \<open>
  Claim C5. When loading the model raises (the loader fails on a missing or invalid
  file, or moving the model to the device fails), \<open>process_video\<close> raises that
  exception and has done no video I/O: the capture is never opened, no frame is read
  or written, and no array has been allocated.
\<close>

theorem model_failure_precedes_io:
  assumes "load_model E model_path (device_of E) = Inl e"
  shows "fst (process_video E input_video_path output_video_path model_path) = Inl e
       \<and> io_events (trace (snd (process_video E input_video_path output_video_path
                                   model_path))) = []
       \<and> next_ref (snd (process_video E input_video_path output_video_path model_path)) = 0"
  using assms by (simp add: process_video_def)

theorem model_failure_precedes_io_witness:
  "load_model demo_env ''missing.pt'' (device_of demo_env) = Inl (LibraryError ''No such file'')
   \<and> fst (process_video demo_env ''clip.mp4'' ''out.mp4'' ''missing.pt'')
       = Inl (LibraryError ''No such file'')
   \<and> io_events (trace (snd (process_video demo_env ''clip.mp4'' ''out.mp4'' ''missing.pt'')))
       = []"
proof -
  have h: "load_model demo_env ''missing.pt'' (device_of demo_env)
             = Inl (LibraryError ''No such file'')"
    by (simp add: load_model_def ebind_def demo_env_def)
  from model_failure_precedes_io [OF h, of "''clip.mp4''" "''out.mp4''"] h
  show ?thesis by blast
qed

text \<open>
  Claim C6, as amended. When the capture does not open, \<open>process_video\<close> opens no
  writer and writes nothing, so no output file is created; and when the model has
  loaded, it raises IOError, its only video I/O being the failed attempt to open the
  capture. An input that opens but of which no frame can be decoded is no error: the
  writer is opened before the first read, the failed read ends the loop, both streams
  are released and the run returns normally, the output file created and empty.
\<close>

theorem unopened_input_creates_no_output:
  "(VideoCapture E input_video_path = None \<longrightarrow>
      sink_events (trace (snd (process_video E input_video_path output_video_path
                                 model_path))) = []
      \<and> (\<forall>m. load_model E model_path (device_of E) = Inr m \<longrightarrow>
            fst (process_video E input_video_path output_video_path model_path)
              = Inl (IOError (''Cannot open video file: '' @ input_video_path))
            \<and> io_events (trace (snd (process_video E input_video_path output_video_path
                                       model_path)))
                = [Capture_open input_video_path False]))
   \<and> (\<forall>m v. load_model E model_path (device_of E) = Inr m
        \<and> VideoCapture E input_video_path = Some v \<and> frames v = []
        \<and> VideoWriter E output_video_path ''mp4v'' (FPS v)
             (trunc (FRAME_WIDTH v), trunc (FRAME_HEIGHT v)) \<longrightarrow>
        fst (process_video E input_video_path output_video_path model_path) = Inr ()
        \<and> io_events (trace (snd (process_video E input_video_path output_video_path
                                   model_path)))
            = [Capture_open input_video_path True,
               Writer_open output_video_path ''mp4v'' (FPS v)
                 (trunc (FRAME_WIDTH v), trunc (FRAME_HEIGHT v)) True,
               Cap_read None, Cap_release, Writer_release])"
proof (intro conjI allI impI)
  assume n: "VideoCapture E input_video_path = None"
  show "sink_events (trace (snd (process_video E input_video_path output_video_path
                                   model_path))) = []"
    using n by (cases "load_model E model_path (device_of E)") (simp_all add: process_video_def)
  fix m
  assume l: "load_model E model_path (device_of E) = Inr m"
  show "fst (process_video E input_video_path output_video_path model_path)
          = Inl (IOError (''Cannot open video file: '' @ input_video_path))"
    using n l by (simp add: process_video_def)
  show "io_events (trace (snd (process_video E input_video_path output_video_path model_path)))
          = [Capture_open input_video_path False]"
    using n l by (simp add: process_video_def)
next
  fix m v
  assume a: "load_model E model_path (device_of E) = Inr m
        \<and> VideoCapture E input_video_path = Some v \<and> frames v = []
        \<and> VideoWriter E output_video_path ''mp4v'' (FPS v)
             (trunc (FRAME_WIDTH v), trunc (FRAME_HEIGHT v))"
  then show "fst (process_video E input_video_path output_video_path model_path) = Inr ()"
    by (simp add: process_video_def Let_def)
  from a show "io_events (trace (snd (process_video E input_video_path output_video_path
                                   model_path)))
            = [Capture_open input_video_path True,
               Writer_open output_video_path ''mp4v'' (FPS v)
                 (trunc (FRAME_WIDTH v), trunc (FRAME_HEIGHT v)) True,
               Cap_read None, Cap_release, Writer_release]"
    by (simp add: process_video_def Let_def)
qed

theorem unopened_input_creates_no_output_witness:
  "VideoCapture demo_env ''missing.mp4'' = None
   \<and> load_model demo_env ''best.pt'' (device_of demo_env) = Inr demo_model
   \<and> fst (process_video demo_env ''missing.mp4'' ''out.mp4'' ''best.pt'')
       = Inl (IOError ''Cannot open video file: missing.mp4'')
   \<and> sink_events (trace (snd (process_video demo_env ''missing.mp4'' ''out.mp4'' ''best.pt'')))
       = []
   \<and> VideoCapture demo_env ''undecodable.mp4'' = Some (demo_video [])
   \<and> frames (demo_video []) = []
   \<and> VideoWriter demo_env ''out.mp4'' ''mp4v'' (FPS (demo_video []))
        (trunc (FRAME_WIDTH (demo_video [])), trunc (FRAME_HEIGHT (demo_video [])))
   \<and> fst (process_video demo_env ''undecodable.mp4'' ''out.mp4'' ''best.pt'') = Inr ()"
proof -
  have h: "VideoCapture demo_env ''missing.mp4'' = None" by (simp add: demo_env_def)
  have o: "VideoCapture demo_env ''undecodable.mp4'' = Some (demo_video [])"
    by (simp add: demo_env_def)
  have f: "frames (demo_video []) = []" by (simp add: demo_video_def)
  have w: "VideoWriter demo_env ''out.mp4'' ''mp4v'' (FPS (demo_video []))
        (trunc (FRAME_WIDTH (demo_video [])), trunc (FRAME_HEIGHT (demo_video [])))"
    by (simp add: demo_env_def)
  from unopened_input_creates_no_output
         [of demo_env "''missing.mp4''" "''out.mp4''" "''best.pt''"] h demo_load
  have "fst (process_video demo_env ''missing.mp4'' ''out.mp4'' ''best.pt'')
          = Inl (IOError (''Cannot open video file: '' @ ''missing.mp4''))"
    and "sink_events (trace (snd (process_video demo_env ''missing.mp4'' ''out.mp4''
                                    ''best.pt''))) = []"
    by blast+
  moreover from unopened_input_creates_no_output
         [of demo_env "''undecodable.mp4''" "''out.mp4''" "''best.pt''"] demo_load o f w
  have "fst (process_video demo_env ''undecodable.mp4'' ''out.mp4'' ''best.pt'') = Inr ()"
    by blast
  ultimately show ?thesis using h demo_load o f w by simp
qed

text \<open>
  The claim as stated fails on an input that opens but cannot be decoded: the run
  returns normally, no IOError is raised, and the writer has been opened on the output
  path.
\<close>

theorem unopened_input_creates_no_output_counterexample:
  "map_option frames (VideoCapture demo_env ''undecodable.mp4'') = Some []
   \<and> fst (process_video demo_env ''undecodable.mp4'' ''out.mp4'' ''best.pt'') = Inr ()
   \<and> io_events (trace (snd (process_video demo_env ''undecodable.mp4'' ''out.mp4''
                               ''best.pt'')))
       = [Capture_open ''undecodable.mp4'' True,
          Writer_open ''out.mp4'' ''mp4v'' 25 (100, 100) True,
          Cap_read None, Cap_release, Writer_release]
   \<and> sink_events (trace (snd (process_video demo_env ''undecodable.mp4'' ''out.mp4''
                                 ''best.pt'')))
       = [Writer_open ''out.mp4'' ''mp4v'' 25 (100, 100) True, Writer_release]"
  by code_simp

section \<open>The download route\<close>

text \<open>
  Claim C9. \<open>download_file\<close> answers with the attachment only when the sanitised name
  equals the requested name and the file exists in the output folder, and the
  attachment is then that name in that folder; whenever one of the two conditions
  fails it redirects to the index page. So a name that differs from its sanitised form
  is never served.
\<close>

theorem download_only_sanitised_names:
  "(download_file W filename fl = (Inr (Attachment d n), fl') \<longrightarrow>
      secure_filename W filename = filename \<and> n = filename \<and> d = OUTPUT_FOLDER W
      \<and> path_exists W (path_join (OUTPUT_FOLDER W) filename))
   \<and> (\<not> (secure_filename W filename = filename
          \<and> path_exists W (path_join (OUTPUT_FOLDER W) filename)) \<longrightarrow>
        fst (download_file W filename fl) = Inr (Redirect ''main.index''))"
  by (auto simp: download_file_def Let_def split: option.splits exn.splits if_splits)

theorem download_only_sanitised_names_witness:
  "download_file demo_web ''processed_ab12cd34_clip.mp4'' []
     = (Inr (Attachment ''/srv/outputs'' ''processed_ab12cd34_clip.mp4''), [])
   \<and> secure_filename demo_web ''processed_ab12cd34_clip.mp4'' = ''processed_ab12cd34_clip.mp4''
   \<and> path_exists demo_web (path_join (OUTPUT_FOLDER demo_web) ''processed_ab12cd34_clip.mp4'')
   \<and> \<not> (secure_filename demo_web ''../config.py'' = ''../config.py''
         \<and> path_exists demo_web (path_join (OUTPUT_FOLDER demo_web) ''../config.py''))
   \<and> fst (download_file demo_web ''../config.py'' []) = Inr (Redirect ''main.index'')"
proof -
  have s: "download_file demo_web ''processed_ab12cd34_clip.mp4'' []
     = (Inr (Attachment ''/srv/outputs'' ''processed_ab12cd34_clip.mp4''), [])"
    by (simp add: download_file_def demo_web_def path_join_def)
  have r: "\<not> (secure_filename demo_web ''../config.py'' = ''../config.py''
         \<and> path_exists demo_web (path_join (OUTPUT_FOLDER demo_web) ''../config.py''))"
    by (simp add: demo_web_def)
  from download_only_sanitised_names
         [of demo_web "''processed_ab12cd34_clip.mp4''" "[]" "''/srv/outputs''"
             "''processed_ab12cd34_clip.mp4''" "[]"] s
  have "secure_filename demo_web ''processed_ab12cd34_clip.mp4'' = ''processed_ab12cd34_clip.mp4''"
    and "path_exists demo_web (path_join (OUTPUT_FOLDER demo_web) ''processed_ab12cd34_clip.mp4'')"
    by blast+
  moreover from download_only_sanitised_names [of demo_web "''../config.py''" "[]"] r
  have "fst (download_file demo_web ''../config.py'' []) = Inr (Redirect ''main.index'')"
    by blast
  ultimately show ?thesis using s r by blast
qed

end
